theory Spec2Isabelle
  imports Main "HOL-Library.AList" "HOL-Library.Sublist"
begin

section \<open>Configuration and the Pea object\<close>

text \<open>
  The module under study is \<^verbatim>\<open>jina/peapods/peas/__init__.py\<close>, class \<^verbatim>\<open>BasePea\<close>.
  \<^verbatim>\<open>args\<close> is the \<^verbatim>\<open>argparse.Namespace\<close> handed to the constructor; only the attributes
  the class reads are kept. A falsy \<^verbatim>\<open>args.name\<close> (\<^verbatim>\<open>None\<close> or the empty string) is the
  empty string, a falsy \<^verbatim>\<open>args.env\<close> (\<^verbatim>\<open>None\<close> or the empty dict) is the empty list.
  A dict is an association list in insertion order with distinct keys; the values of
  the environment dict are kept as the strings that \<^verbatim>\<open>str(v)\<close> gives.
  \<^verbatim>\<open>timeout_ready\<close> is in milliseconds.
\<close>

datatype backend = THREAD | PROCESS

datatype socket_type = DEALER_CONNECT | OTHER_SOCKET

record args =
  name :: string
  identity :: string
  quiet :: bool
  quiet_error :: bool
  env :: "(string \<times> string) list"
  runtime_backend :: backend
  host :: string
  runtime_cls :: string
  uses :: string
  timeout_ready :: int
  timeout_ctrl :: int
  daemon :: bool
  socket_in :: socket_type

text \<open>
  Exceptions, by the class that the \<^verbatim>\<open>except\<close> clauses of the module tell apart.
  \<^verbatim>\<open>SystemExit\<close> stands for every exception outside \<^verbatim>\<open>Exception\<close> other than
  \<^verbatim>\<open>KeyboardInterrupt\<close>, \<^verbatim>\<open>OtherException\<close> for every other subclass of \<^verbatim>\<open>Exception\<close>.
\<close>

datatype exc =
    RuntimeFailToStart
  | RuntimeTerminated
  | KeyboardInterrupt
  | SystemExit
  | SystemError
  | TimeoutError
  | UnboundLocalError
  | OtherException

text \<open>
  What the module imports from files that are not part of the sources:
  \<^verbatim>\<open>__default_host__\<close> (package \<^verbatim>\<open>jina\<close>), \<^verbatim>\<open>get_runtime\<close> (package \<^verbatim>\<open>runtimes\<close>; \<open>None\<close> when
  the lookup of the name raises) and, for the two exception classes of \<^verbatim>\<open>jina/excepts.py\<close>,
  whether the class derives from \<^verbatim>\<open>Exception\<close>. They are parameters of the model.
\<close>

record jina =
  default_host :: string
  get_runtime :: "string \<Rightarrow> string option"
  RuntimeFailToStart_is_Exception :: bool
  RuntimeTerminated_is_Exception :: bool

fun isinstance_Exception :: "jina \<Rightarrow> exc \<Rightarrow> bool" where
  "isinstance_Exception J RuntimeFailToStart = RuntimeFailToStart_is_Exception J"
| "isinstance_Exception J RuntimeTerminated = RuntimeTerminated_is_Exception J"
| "isinstance_Exception J KeyboardInterrupt = False"
| "isinstance_Exception J SystemExit = False"
| "isinstance_Exception J SystemError = True"
| "isinstance_Exception J TimeoutError = True"
| "isinstance_Exception J UnboundLocalError = True"
| "isinstance_Exception J OtherException = True"

subsection \<open>\<^verbatim>\<open>BasePea.__init__\<close> and \<^verbatim>\<open>BasePea._get_runtime_cls\<close>\<close>

text \<open>Line 41: \<^verbatim>\<open>self.name = self.args.name or self.__class__.__name__\<close>.\<close>

definition init_name :: "args \<Rightarrow> string" where
  "init_name a = (if name a = [] then ''BasePea'' else name a)"

text \<open>\<^verbatim>\<open>dict.update(other)\<close>: assign every item of \<^verbatim>\<open>other\<close> in turn.\<close>

definition dict_update :: "(string \<times> string) list \<Rightarrow> (string \<times> string) list \<Rightarrow> (string \<times> string) list" where
  "dict_update d other = fold (\<lambda>(k, v). AList.update k v) other d"

text \<open>Lines 57 to 61: the dict \<^verbatim>\<open>self._envs\<close>.\<close>

definition init_envs :: "args \<Rightarrow> (string \<times> string) list" where
  "init_envs a =
     (let e0 = [(''JINA_POD_NAME'', init_name a), (''JINA_LOG_ID'', identity a)];
          e1 = (if quiet a then AList.update ''JINA_LOG_CONFIG'' ''QUIET'' e0 else e0)
      in if env a \<noteq> [] then dict_update e1 (env a) else e1)"

text \<open>
  Lines 282 to 295. The method assigns to \<^verbatim>\<open>self.args.runtime_cls\<close>, so the updated
  namespace is returned with the result; the result is \<open>None\<close> when \<^verbatim>\<open>get_runtime\<close> raises.
\<close>

definition get_runtime_cls :: "jina \<Rightarrow> args \<Rightarrow> args \<times> (string \<times> bool) option" where
  "get_runtime_cls J a =
     (let is_remote_controlled = False;
          (a1, is_remote_controlled) =
             (if host a \<noteq> default_host J then (a\<lparr>runtime_cls := ''JinadRuntime''\<rparr>, True)
              else (a, is_remote_controlled));
          a2 = (if runtime_cls a1 = ''ZEDRuntime'' \<and> prefix ''docker://'' (uses a1)
                then a1\<lparr>runtime_cls := ''ContainerRuntime''\<rparr> else a1)
      in (a2, map_option (\<lambda>v. (v, is_remote_controlled)) (get_runtime J (runtime_cls a2))))"

text \<open>
  The attributes of a constructed Pea that the methods below read. The two control
  addresses come from \<^verbatim>\<open>Zmqlet.get_ctrl_address\<close> (not part of the sources) and are
  parameters of the constructor.
\<close>

record pea =
  self_args :: args
  self_name :: string
  self_envs :: "(string \<times> string) list"
  self_runtime_cls :: string
  self_is_remote_controlled :: bool
  self_runtime_ctrl_addr :: string
  self_remote_ctrl_addr :: string
  self_timeout_ctrl :: int

definition init :: "jina \<Rightarrow> string \<Rightarrow> string \<Rightarrow> args \<Rightarrow> pea option" where
  "init J ctrl_addr remote_addr a =
     (case get_runtime_cls J a of
        (a', None) \<Rightarrow> None
      | (a', Some (v, remote)) \<Rightarrow>
          Some \<lparr> self_args = a', self_name = init_name a, self_envs = init_envs a,
                 self_runtime_cls = v, self_is_remote_controlled = remote,
                 self_runtime_ctrl_addr = ctrl_addr, self_remote_ctrl_addr = remote_addr,
                 self_timeout_ctrl = timeout_ctrl a' \<rparr>)"

section \<open>Actions, outcomes and the state they act on\<close>

text \<open>
  A method is modelled by the sequence of actions it performs on its collaborators
  (the Runtime, the logger, the two event flags, the process environment, the worker)
  together with the way it ends. The calls into the Runtime and the worker are
  external: how each of them ends is an input of the model. The calls of the logger,
  of the event flags and of \<^verbatim>\<open>os\<close> are taken to return normally, and the Runtime is
  taken to leave the two flags and the environment alone. An action is recorded when
  the call is made, whatever its outcome. Where a call of the supervisor blocks until
  the lifecycle body, in the worker, has written a flag, that write is recorded after
  the call once the call has returned.
\<close>

datatype outcome = Returns | Raises exc | Hangs

datatype flag = IsReady | IsShutdown

datatype runtime_call = Init | Setup | RunForever | Teardown

datatype level = INFO | WARNING | ERROR | CRITICAL | SUCCESS

datatype msg =
    Starting | IsEnd | IsInterrupted | EnvsWithThread
  | DuringSetup | DuringInit | DuringRunForever | DuringTeardown | DuringCancel
  | EmptyMessage
  | FailToStart | ReadyMsg | TimeoutAfterWaiting | StopMsg

datatype event =
    Call runtime_call
  | Logger level msg
  | FlagSet flag
  | FlagClear flag
  | EnvironUpdate "(string \<times> string) list"
  | Unsetenv string
  | WorkerJoin "nat option"
  | WorkerTerminate
  | Deactivate string int
  | Cancel string int
  | Sleep nat
  | FlagWait flag
  | LoggerClose

type_synonym res = "event list \<times> outcome"

definition is_log :: "event \<Rightarrow> bool" where
  "is_log x = (\<exists>l m. x = Logger l m)"

text \<open>An action that touches neither \<^verbatim>\<open>is_shutdown\<close> nor the environment and is not the
  constructor call.\<close>

definition plain :: "event \<Rightarrow> bool" where
  "plain x = ((\<exists>c. x = Call c \<and> c \<noteq> Init) \<or> is_log x \<or> x = FlagSet IsReady)"

text \<open>
  The state the actions act on: the two flags shared between the supervisor and the
  lifecycle body, and the environment of the process (the block that \<^verbatim>\<open>putenv\<close> and
  \<^verbatim>\<open>unsetenv\<close> change; \<^verbatim>\<open>os.environ.update\<close> calls \<^verbatim>\<open>putenv\<close> for every item).
\<close>

record pea_state =
  is_ready :: bool
  is_shutdown :: bool
  process_env :: "string \<rightharpoonup> string"

fun set_flag :: "flag \<Rightarrow> bool \<Rightarrow> pea_state \<Rightarrow> pea_state" where
  "set_flag IsReady b s = s\<lparr>is_ready := b\<rparr>"
| "set_flag IsShutdown b s = s\<lparr>is_shutdown := b\<rparr>"

fun apply_event :: "event \<Rightarrow> pea_state \<Rightarrow> pea_state" where
  "apply_event (FlagSet f) s = set_flag f True s"
| "apply_event (FlagClear f) s = set_flag f False s"
| "apply_event (EnvironUpdate kvs) s =
     s\<lparr>process_env := fold (\<lambda>(k, v) m. m(k \<mapsto> v)) kvs (process_env s)\<rparr>"
| "apply_event (Unsetenv k) s = s\<lparr>process_env := (process_env s)(k := None)\<rparr>"
| "apply_event _ s = s"

text \<open>The state after a sequence of actions.\<close>

definition exec :: "event list \<Rightarrow> pea_state \<Rightarrow> pea_state" where
  "exec es s = fold apply_event es s"

subsection \<open>Python's control flow on action sequences\<close>

definition py_pass :: res where
  "py_pass = ([], Returns)"

text \<open>An action of the module's own that returns normally.\<close>

definition act :: "event \<Rightarrow> res" where
  "act e = ([e], Returns)"

text \<open>An external call and the way it ends.\<close>

definition call :: "event \<Rightarrow> outcome \<Rightarrow> res" where
  "call e out = ([e], out)"

definition py_raise :: "exc \<Rightarrow> res" where
  "py_raise e = ([], Raises e)"

definition py_seq :: "res \<Rightarrow> res \<Rightarrow> res" where
  "py_seq r1 r2 = (case snd r1 of Returns \<Rightarrow> (fst r1 @ fst r2, snd r2) | _ \<Rightarrow> r1)"

definition block :: "res list \<Rightarrow> res" where
  "block rs = foldr py_seq rs py_pass"

text \<open>
  \<^verbatim>\<open>try: body except ...: handler\<close>. The handler function gives the handler's run for
  an exception that one of the \<^verbatim>\<open>except\<close> clauses matches, and \<open>None\<close> otherwise.
\<close>

definition py_try_except :: "res \<Rightarrow> (exc \<Rightarrow> res option) \<Rightarrow> res" where
  "py_try_except body handler =
     (case snd body of
        Raises e \<Rightarrow> (case handler e of Some h \<Rightarrow> (fst body @ fst h, snd h) | None \<Rightarrow> body)
      | _ \<Rightarrow> body)"

text \<open>\<^verbatim>\<open>try: body except ...: handler else: orelse\<close>.\<close>

definition py_try_except_else :: "res \<Rightarrow> (exc \<Rightarrow> res option) \<Rightarrow> res \<Rightarrow> res" where
  "py_try_except_else body handler orelse =
     (case snd body of
        Returns \<Rightarrow> (fst body @ fst orelse, snd orelse)
      | _ \<Rightarrow> py_try_except body handler)"

text \<open>
  \<^verbatim>\<open>try: body finally: final\<close>. The final block runs unless the body never ends; if it
  returns normally the way the body ended stands (a pending exception is re-raised).
\<close>

definition py_try_finally :: "res \<Rightarrow> res \<Rightarrow> res" where
  "py_try_finally body final =
     (case snd body of
        Hangs \<Rightarrow> body
      | out \<Rightarrow> (fst body @ fst final, (case snd final of Returns \<Rightarrow> out | out' \<Rightarrow> out')))"

section \<open>The lifecycle body: \<^verbatim>\<open>BasePea.run\<close>\<close>

text \<open>How the four calls into the Runtime end in one execution of the body.\<close>

record runtime =
  init_outcome :: outcome
  setup_outcome :: outcome
  run_forever_outcome :: outcome
  teardown_outcome :: outcome

text \<open>
  The argument of the \<^verbatim>\<open>logger.error\<close> calls is a conditional expression,
  \<^verbatim>\<open>(f'{ex!r} during {...!r}' + f'...') if not self.args.quiet_error else ''\<close>.
  The formatted string is evaluated only when \<^verbatim>\<open>quiet_error\<close> is false; \<open>bound\<close> says
  whether the local names it reads are bound (reading an unbound local raises
  \<^verbatim>\<open>UnboundLocalError\<close> before the logger is called).
\<close>

definition log_error_during :: "pea \<Rightarrow> bool \<Rightarrow> msg \<Rightarrow> res" where
  "log_error_during p bound m =
     (if \<not> quiet_error (self_args p)
      then (if bound then act (Logger ERROR m) else py_raise UnboundLocalError)
      else act (Logger ERROR EmptyMessage))"

text \<open>Lines 252 to 269.\<close>

definition set_envs :: "pea \<Rightarrow> res" where
  "set_envs p =
     (if env (self_args p) \<noteq> [] then
        (if runtime_backend (self_args p) = THREAD
         then act (Logger WARNING EnvsWithThread)
         else act (EnvironUpdate (self_envs p)))
      else py_pass)"

text \<open>Lines 271 to 274.\<close>

definition unset_envs :: "pea \<Rightarrow> res" where
  "unset_envs p =
     (if self_envs p \<noteq> [] \<and> runtime_backend (self_args p) \<noteq> THREAD
      then block (map (\<lambda>k. act (Unsetenv k)) (map fst (self_envs p)))
      else py_pass)"

text \<open>Lines 109 to 117, the body of the outer \<^verbatim>\<open>try\<close>.\<close>

definition startup :: "jina \<Rightarrow> pea \<Rightarrow> runtime \<Rightarrow> res" where
  "startup J p rt =
     block [
       py_try_except (call (Call Init) (init_outcome rt))
         (\<lambda>ex. if isinstance_Exception J ex then Some (py_raise RuntimeFailToStart) else None),
       set_envs p,
       act (Logger INFO Starting),
       call (Call Setup) (setup_outcome rt)]"

text \<open>
  Lines 118 to 125, the \<^verbatim>\<open>except Exception\<close> clause of the outer \<^verbatim>\<open>try\<close>. Its message reads
  the local \<^verbatim>\<open>runtime\<close>, which is bound only if the constructor call of line 110 returned.
\<close>

definition startup_handler :: "jina \<Rightarrow> pea \<Rightarrow> runtime \<Rightarrow> exc \<Rightarrow> res option" where
  "startup_handler J p rt ex =
     (if isinstance_Exception J ex
      then Some (log_error_during p (init_outcome rt = Returns) DuringSetup)
      else None)"

text \<open>Lines 130 to 149, the \<^verbatim>\<open>except\<close> clauses around \<^verbatim>\<open>run_forever\<close>, in the source's order.\<close>

definition run_forever_handler :: "jina \<Rightarrow> pea \<Rightarrow> exc \<Rightarrow> res option" where
  "run_forever_handler J p ex =
     (if ex = RuntimeFailToStart then Some (log_error_during p True DuringInit)
      else if ex = RuntimeTerminated then Some (act (Logger INFO IsEnd))
      else if ex = KeyboardInterrupt then Some (act (Logger INFO IsInterrupted))
      else if isinstance_Exception J ex \<or> ex = SystemError
           then Some (log_error_during p True DuringRunForever)
      else None)"

text \<open>The exceptions that one of these clauses matches.\<close>

definition caught :: "jina \<Rightarrow> exc \<Rightarrow> bool" where
  "caught J e = (e = RuntimeFailToStart \<or> e = RuntimeTerminated \<or> e = KeyboardInterrupt
                 \<or> isinstance_Exception J e \<or> e = SystemError)"

text \<open>Lines 127 to 160, the \<^verbatim>\<open>else\<close> block of the outer \<^verbatim>\<open>try\<close>.\<close>

definition serve :: "jina \<Rightarrow> pea \<Rightarrow> runtime \<Rightarrow> res" where
  "serve J p rt =
     block [
       act (FlagSet IsReady),
       py_try_except (call (Call RunForever) (run_forever_outcome rt)) (run_forever_handler J p),
       py_try_except (call (Call Teardown) (teardown_outcome rt))
         (\<lambda>ex. if isinstance_Exception J ex
               then Some (log_error_during p True DuringTeardown) else None)]"

text \<open>Lines 162 to 164, the \<^verbatim>\<open>finally\<close> block.\<close>

definition finalization :: "pea \<Rightarrow> res" where
  "finalization p = block [act (FlagSet IsShutdown), act (FlagClear IsReady), unset_envs p]"

text \<open>Lines 108 to 160: the \<^verbatim>\<open>try\<close>, \<^verbatim>\<open>except\<close> and \<^verbatim>\<open>else\<close> parts.\<close>

definition lifecycle :: "jina \<Rightarrow> pea \<Rightarrow> runtime \<Rightarrow> res" where
  "lifecycle J p rt = py_try_except_else (startup J p rt) (startup_handler J p rt) (serve J p rt)"

definition run :: "jina \<Rightarrow> pea \<Rightarrow> runtime \<Rightarrow> res" where
  "run J p rt = py_try_finally (lifecycle J p rt) (finalization p)"

section \<open>The supervisor's side: \<^verbatim>\<open>terminate\<close>, \<^verbatim>\<open>close\<close> and \<^verbatim>\<open>wait_start_success\<close>\<close>

text \<open>
  Lines 92 to 97. The worker is a \<^verbatim>\<open>multiprocessing.Process\<close>, which has a \<^verbatim>\<open>terminate\<close>
  method, or a \<^verbatim>\<open>threading.Thread\<close>, which has none.
\<close>

definition terminate :: "pea \<Rightarrow> res" where
  "terminate p = (if runtime_backend (self_args p) = PROCESS then act WorkerTerminate else py_pass)"

text \<open>Lines 197 to 202, the property \<^verbatim>\<open>_dealer\<close>.\<close>

definition dealer :: "pea \<Rightarrow> bool" where
  "dealer p = (socket_in (self_args p) = DEALER_CONNECT)"

text \<open>
  How the external calls of \<^verbatim>\<open>close\<close> end: the two control signals (static methods of
  the Runtime class), the untimed wait on \<^verbatim>\<open>is_shutdown\<close> and the untimed join of the
  worker. The timed join of line 213 returns after at most 0.1 s.
\<close>

record close_calls =
  deactivate_outcome :: outcome
  cancel_outcome :: outcome
  shutdown_wait_outcome :: outcome
  join_outcome :: outcome

text \<open>
  Line 232, \<^verbatim>\<open>self.is_shutdown.wait()\<close>. Without a timeout \<^verbatim>\<open>Event.wait\<close> returns only once
  the flag is set, and the lifecycle body is the only writer of the flag (line 162): when
  the call has returned, that write has happened.
\<close>

definition wait_shutdown :: "outcome \<Rightarrow> res" where
  "wait_shutdown out = block [call (FlagWait IsShutdown) out, act (FlagSet IsShutdown)]"

text \<open>
  Line 244, \<^verbatim>\<open>self.join()\<close>. Without a timeout \<^verbatim>\<open>join\<close> returns only once the worker has
  ended. The worker runs \<^verbatim>\<open>run\<close> and is taken to end only when \<^verbatim>\<open>run\<close> ends, that is, after
  the \<^verbatim>\<open>finally\<close> block has set \<^verbatim>\<open>is_shutdown\<close> and cleared \<^verbatim>\<open>is_ready\<close> (lines 162 and 163):
  when the call has returned, the two writes have happened.
\<close>

definition join_worker :: "outcome \<Rightarrow> res" where
  "join_worker out =
     block [call (WorkerJoin None) out, act (FlagSet IsShutdown), act (FlagClear IsReady)]"

text \<open>
  Lines 204 to 250. The state \<open>s\<close> holds the two flags as line 216 reads them; the
  flags are written by the lifecycle body only, which runs in the worker. Times are
  in milliseconds.
\<close>

definition close :: "jina \<Rightarrow> pea \<Rightarrow> close_calls \<Rightarrow> pea_state \<Rightarrow> res" where
  "close J p cx s =
     block [
       act (WorkerJoin (Some 100)),
       (if is_ready s \<and> \<not> is_shutdown s then
          block [
            py_try_except
              (block [
                 (if dealer p then
                    block [
                      call (Deactivate (self_runtime_ctrl_addr p) (self_timeout_ctrl p))
                        (deactivate_outcome cx),
                      act (Sleep 100)]
                  else py_pass),
                 call (Cancel (if \<not> self_is_remote_controlled p then self_runtime_ctrl_addr p
                               else self_remote_ctrl_addr p) (self_timeout_ctrl p))
                   (cancel_outcome cx),
                 wait_shutdown (shutdown_wait_outcome cx)])
              (\<lambda>ex. if isinstance_Exception J ex
                    then Some (log_error_during p True DuringCancel) else None),
            (if \<not> daemon (self_args p) then join_worker (join_outcome cx)
             else py_pass)]
        else terminate p),
       act (Logger SUCCESS StopMsg),
       act LoggerClose]"

text \<open>
  \<^verbatim>\<open>Event.wait(timeout)\<close> on the combined gate \<^verbatim>\<open>ready_or_shutdown.event\<close>. The first
  argument is the time after which the gate becomes set (\<open>None\<close>: it never does), the
  second the timeout (\<open>None\<close>: wait without bound). The result is the value the call
  returns, and \<open>None\<close> when the call never returns. The source divides the timeout by
  \<^verbatim>\<open>1e3\<close> to pass seconds; the model keeps milliseconds on both sides.
\<close>

fun event_wait :: "nat option \<Rightarrow> int option \<Rightarrow> bool option" where
  "event_wait None None = None"
| "event_wait (Some t) None = Some True"
| "event_wait None (Some d) = Some False"
| "event_wait (Some t) (Some d) = Some (int t \<le> d)"

text \<open>
  Lines 166 to 195. \<open>gate\<close> is the time after which the combined gate becomes set and
  \<open>s\<close> the flags as they are read once the wait has ended (by line 177, or by line 216
  inside \<^verbatim>\<open>close\<close>).
\<close>

definition wait_start_success :: "jina \<Rightarrow> pea \<Rightarrow> close_calls \<Rightarrow> nat option \<Rightarrow> pea_state \<Rightarrow> res" where
  "wait_start_success J p cx gate s =
     (let timeout = timeout_ready (self_args p);
          timeout = (if timeout \<le> 0 then None else Some timeout)
      in case event_wait gate timeout of
           None \<Rightarrow> ([], Hangs)
         | Some True \<Rightarrow>
             (if is_shutdown s then
                block [
                  (if quiet_error (self_args p) then act (Logger CRITICAL FailToStart)
                   else py_pass),
                  py_raise RuntimeFailToStart]
              else act (Logger SUCCESS ReadyMsg))
         | Some False \<Rightarrow>
             block [
               act (Logger WARNING TimeoutAfterWaiting),
               close J p cx s,
               py_raise TimeoutError])"

section \<open>Concrete configurations\<close>

text \<open>
  A local Pea in a process of its own with no environment overrides, the same Pea
  as a daemon, as a thread, with one override, and with an unbounded wait for readiness;
  a Runtime that starts, serves until it is cancelled and tears down; external calls of
  \<^verbatim>\<open>close\<close> that all return; a Pea that has just been constructed, one whose process has
  inherited a variable from its parent, and one that is serving.
\<close>

definition jina0 :: jina where
  "jina0 = \<lparr> default_host = ''0.0.0.0'', get_runtime = Some,
             RuntimeFailToStart_is_Exception = True, RuntimeTerminated_is_Exception = False \<rparr>"

definition args0 :: args where
  "args0 = \<lparr> name = ''pea0'', identity = ''id0'', quiet = False, quiet_error = False, env = [],
             runtime_backend = PROCESS, host = ''0.0.0.0'', runtime_cls = ''ZEDRuntime'',
             uses = ''_pass'', timeout_ready = 500, timeout_ctrl = 5000, daemon = False,
             socket_in = OTHER_SOCKET \<rparr>"

definition pea_of :: "args \<Rightarrow> pea" where
  "pea_of a = \<lparr> self_args = a, self_name = init_name a, self_envs = init_envs a,
                self_runtime_cls = runtime_cls a, self_is_remote_controlled = False,
                self_runtime_ctrl_addr = ''tcp://0.0.0.0:5000'',
                self_remote_ctrl_addr = ''ipc:///tmp/ctrl'',
                self_timeout_ctrl = timeout_ctrl a \<rparr>"

definition pea0 :: pea where
  "pea0 = pea_of args0"


definition pea_thread :: pea where
  "pea_thread = pea_of (args0\<lparr>runtime_backend := THREAD\<rparr>)"

definition pea_env :: pea where
  "pea_env = pea_of (args0\<lparr>env := [(''DEBUG'', ''1'')]\<rparr>)"

definition pea_thread_env :: pea where
  "pea_thread_env = pea_of (args0\<lparr>runtime_backend := THREAD, env := [(''DEBUG'', ''1'')]\<rparr>)"

definition pea_forever :: pea where
  "pea_forever = pea_of (args0\<lparr>timeout_ready := - 1\<rparr>)"

definition runtime_ok :: runtime where
  "runtime_ok = \<lparr> init_outcome = Returns, setup_outcome = Returns,
                  run_forever_outcome = Raises RuntimeTerminated, teardown_outcome = Returns \<rparr>"

definition calls_ok :: close_calls where
  "calls_ok = \<lparr> deactivate_outcome = Returns, cancel_outcome = Returns,
                shutdown_wait_outcome = Returns, join_outcome = Returns \<rparr>"

definition state0 :: pea_state where
  "state0 = \<lparr> is_ready = False, is_shutdown = False, process_env = Map.empty \<rparr>"

definition state_inherited :: pea_state where
  "state_inherited = \<lparr> is_ready = False, is_shutdown = False,
                        process_env = [''JINA_POD_NAME'' \<mapsto> ''parent''] \<rparr>"

definition serving :: pea_state where
  "serving = \<lparr> is_ready = True, is_shutdown = False, process_env = Map.empty \<rparr>"

section \<open>Properties\<close>

subsection \<open>Auxiliary facts about the control flow\<close>

lemmas flow_defs = py_pass_def act_def call_def py_raise_def py_seq_def block_def
  py_try_except_def py_try_except_else_def py_try_finally_def

lemma block_acts: "block (map (\<lambda>k. act (f k)) ks) = (map f ks, Returns)"
  by (induction ks) (simp_all add: flow_defs)

lemma unset_envs_eq:
  "unset_envs p = ((if runtime_backend (self_args p) = THREAD then [] else map Unsetenv (map fst (self_envs p))), Returns)"
  by (simp add: unset_envs_def block_acts py_pass_def del: map_map)

lemma finalization_eq:
  "finalization p = ([FlagSet IsShutdown, FlagClear IsReady] @ fst (unset_envs p), Returns)"
  by (simp add: finalization_def unset_envs_eq flow_defs)

lemma run_eq:
  "run J p rt = (if snd (lifecycle J p rt) = Hangs then lifecycle J p rt
     else (fst (lifecycle J p rt) @ [FlagSet IsShutdown, FlagClear IsReady] @ fst (unset_envs p), snd (lifecycle J p rt)))"
  by (simp add: run_def py_try_finally_def finalization_eq split: outcome.splits prod.splits)

lemma startup_init_returns:
  "init_outcome rt = Returns \<Longrightarrow>
     startup J p rt = (Call Init # fst (set_envs p) @ [Logger INFO Starting, Call Setup], setup_outcome rt)"
  by (cases "setup_outcome rt") (simp_all add: startup_def set_envs_def flow_defs)

lemma startup_init_fails:
  "init_outcome rt \<noteq> Returns \<Longrightarrow> fst (startup J p rt) = [Call Init] \<and> snd (startup J p rt) \<noteq> Returns"
  by (cases "init_outcome rt") (simp_all add: startup_def flow_defs)

lemma set_envs_eq:
  "set_envs p = ((if env (self_args p) \<noteq> [] then
       (if runtime_backend (self_args p) = THREAD then [Logger WARNING EnvsWithThread]
        else [EnvironUpdate (self_envs p)]) else []), Returns)"
  by (simp add: set_envs_def flow_defs)

lemma log_error_during_bound:
  "log_error_during p True m = ([Logger ERROR (if quiet_error (self_args p) then EmptyMessage else m)], Returns)"
  by (simp add: log_error_during_def act_def)

lemma run_forever_handler_caught:
  "caught J e \<Longrightarrow> \<exists>l m. run_forever_handler J p e = Some ([Logger l m], Returns)"
  by (auto simp: caught_def run_forever_handler_def log_error_during_bound act_def)

lemma run_forever_handler_uncaught:
  "\<not> caught J e \<Longrightarrow> run_forever_handler J p e = None"
  by (auto simp: caught_def run_forever_handler_def)

lemma teardown_part:
  "\<exists>l2 out. py_try_except (call (Call Teardown) (teardown_outcome rt))
         (\<lambda>ex. if isinstance_Exception J ex
               then Some (log_error_during p True DuringTeardown) else None) = (Call Teardown # l2, out)
       \<and> (\<forall>x\<in>set l2. is_log x) \<and> (out = Hangs \<longleftrightarrow> teardown_outcome rt = Hangs)"
  by (cases "teardown_outcome rt")
     (simp_all add: py_try_except_def call_def is_log_def log_error_during_bound)

lemma serve_reaches_teardown:
  assumes "run_forever_outcome rt = Returns \<or> (\<exists>e. run_forever_outcome rt = Raises e \<and> caught J e)"
  shows "\<exists>l1 l2. fst (serve J p rt) = FlagSet IsReady # Call RunForever # l1 @ Call Teardown # l2
            \<and> (\<forall>x\<in>set (l1 @ l2). is_log x)
            \<and> (snd (serve J p rt) = Hangs \<longleftrightarrow> teardown_outcome rt = Hangs)"
proof -
  obtain l1 where rf: "py_try_except (call (Call RunForever) (run_forever_outcome rt)) (run_forever_handler J p)
         = (Call RunForever # l1, Returns)" and l1: "\<forall>x\<in>set l1. is_log x"
    using assms run_forever_handler_caught[of J _ p]
    by (fastforce simp: py_try_except_def call_def is_log_def)
  obtain l2 out where td: "py_try_except (call (Call Teardown) (teardown_outcome rt))
         (\<lambda>ex. if isinstance_Exception J ex
               then Some (log_error_during p True DuringTeardown) else None) = (Call Teardown # l2, out)"
     and l2: "\<forall>x\<in>set l2. is_log x" and out: "out = Hangs \<longleftrightarrow> teardown_outcome rt = Hangs"
    using teardown_part[of rt J p] by blast
  show ?thesis
    using l1 l2 out by (auto simp: serve_def rf td block_def py_seq_def py_pass_def act_def split: outcome.splits)
qed

lemma serve_skips_teardown:
  assumes "\<not> (run_forever_outcome rt = Returns \<or> (\<exists>e. run_forever_outcome rt = Raises e \<and> caught J e))"
  shows "serve J p rt = ([FlagSet IsReady, Call RunForever], run_forever_outcome rt)"
  using assms run_forever_handler_uncaught[of J _ p]
  by (cases "run_forever_outcome rt") (auto simp: serve_def flow_defs)

lemma serve_events:
  "x \<in> set (fst (serve J p rt)) \<Longrightarrow> x = FlagSet IsReady \<or> x = Call RunForever \<or> x = Call Teardown \<or> is_log x"
  using serve_reaches_teardown[of rt J p] serve_skips_teardown[of rt J p]
  by (cases "run_forever_outcome rt = Returns \<or> (\<exists>e. run_forever_outcome rt = Raises e \<and> caught J e)") auto

lemma lifecycle_started:
  "init_outcome rt = Returns \<Longrightarrow> setup_outcome rt = Returns \<Longrightarrow>
     lifecycle J p rt =
       (Call Init # fst (set_envs p) @ [Logger INFO Starting, Call Setup] @ fst (serve J p rt),
        snd (serve J p rt))"
  by (simp add: lifecycle_def py_try_except_else_def startup_init_returns)

lemma lifecycle_setup_fails:
  "init_outcome rt = Returns \<Longrightarrow> setup_outcome rt \<noteq> Returns \<Longrightarrow>
     lifecycle J p rt =
       (case setup_outcome rt of
          Raises e \<Rightarrow>
            if isinstance_Exception J e
            then (Call Init # fst (set_envs p) @
                    [Logger INFO Starting, Call Setup,
                     Logger ERROR (if quiet_error (self_args p) then EmptyMessage else DuringSetup)],
                  Returns)
            else (Call Init # fst (set_envs p) @ [Logger INFO Starting, Call Setup], Raises e)
        | out \<Rightarrow> (Call Init # fst (set_envs p) @ [Logger INFO Starting, Call Setup], out))"
  by (cases "setup_outcome rt")
     (simp_all add: lifecycle_def py_try_except_else_def py_try_except_def startup_init_returns
        startup_handler_def log_error_during_bound)

lemma lifecycle_init_fails:
  "init_outcome rt \<noteq> Returns \<Longrightarrow>
     \<exists>l. fst (lifecycle J p rt) = Call Init # l \<and> (\<forall>x\<in>set l. is_log x)"
  by (cases "init_outcome rt")
     (auto simp: lifecycle_def startup_def startup_handler_def log_error_during_def flow_defs is_log_def)

lemma lifecycle_events:
  assumes "x \<in> set (fst (lifecycle J p rt))"
  shows "(\<exists>c. x = Call c) \<or> is_log x \<or> x = FlagSet IsReady \<or> x = EnvironUpdate (self_envs p)"
proof (cases "init_outcome rt = Returns")
  case False
  then show ?thesis using assms lifecycle_init_fails[of rt J p] by auto
next
  case init: True
  show ?thesis
  proof (cases "setup_outcome rt = Returns")
    case True
    then show ?thesis
      using assms init serve_events[of x J p rt]
      by (auto simp: lifecycle_started set_envs_eq is_log_def split: if_splits)
  next
    case False
    then show ?thesis
      using assms init
      by (auto simp: lifecycle_setup_fails set_envs_eq is_log_def split: if_splits outcome.splits)
  qed
qed

subsection \<open>Selection of the Runtime class\<close>

text \<open>
  Claim C5. \<^verbatim>\<open>_get_runtime_cls\<close> decides in three cases. If \<^verbatim>\<open>args.host\<close> differs from the
  default host, the class looked up is \<^verbatim>\<open>JinadRuntime\<close> and the remote-control flag is true,
  whatever class was requested. If the host is the default host, the requested class is
  \<^verbatim>\<open>ZEDRuntime\<close> and \<^verbatim>\<open>args.uses\<close> starts with \<^verbatim>\<open>docker://\<close>, the class looked up is
  \<^verbatim>\<open>ContainerRuntime\<close> and the flag is false. Otherwise the requested class is looked up
  unchanged and the flag is false.
\<close>

theorem get_runtime_cls_selection:
  "(host a \<noteq> default_host J \<longrightarrow>
      get_runtime_cls J a =
        (a\<lparr>runtime_cls := ''JinadRuntime''\<rparr>,
         map_option (\<lambda>v. (v, True)) (get_runtime J ''JinadRuntime'')))
   \<and> (host a = default_host J \<and> runtime_cls a = ''ZEDRuntime'' \<and> prefix ''docker://'' (uses a) \<longrightarrow>
      get_runtime_cls J a =
        (a\<lparr>runtime_cls := ''ContainerRuntime''\<rparr>,
         map_option (\<lambda>v. (v, False)) (get_runtime J ''ContainerRuntime'')))
   \<and> (host a = default_host J \<and> \<not> (runtime_cls a = ''ZEDRuntime'' \<and> prefix ''docker://'' (uses a)) \<longrightarrow>
      get_runtime_cls J a = (a, map_option (\<lambda>v. (v, False)) (get_runtime J (runtime_cls a))))"
  by (auto simp: get_runtime_cls_def)

theorem get_runtime_cls_selection_witness:
  "get_runtime_cls jina0 (args0\<lparr>host := ''10.0.0.7''\<rparr>) =
     (args0\<lparr>host := ''10.0.0.7'', runtime_cls := ''JinadRuntime''\<rparr>, Some (''JinadRuntime'', True))
   \<and> get_runtime_cls jina0 (args0\<lparr>uses := ''docker://image''\<rparr>) =
     (args0\<lparr>uses := ''docker://image'', runtime_cls := ''ContainerRuntime''\<rparr>,
      Some (''ContainerRuntime'', False))
   \<and> get_runtime_cls jina0 args0 = (args0, Some (''ZEDRuntime'', False))"
  using get_runtime_cls_selection [where J = jina0 and a = "args0\<lparr>host := ''10.0.0.7''\<rparr>"]
    get_runtime_cls_selection [where J = jina0 and a = "args0\<lparr>uses := ''docker://image''\<rparr>"]
    get_runtime_cls_selection [where J = jina0 and a = args0]
  by (simp add: jina0_def args0_def)

subsection \<open>The body as an error boundary\<close>

text \<open>
  Claim C2. The claim is that no exception leaves \<^verbatim>\<open>run\<close> and that every failure becomes a
  log entry and the shutdown signal. At a Runtime whose constructor raises an ordinary
  exception, with \<^verbatim>\<open>quiet_error\<close> off, the handler of line 118 formats its message from the
  local \<^verbatim>\<open>runtime\<close>, which was never bound: \<^verbatim>\<open>run\<close> signals shutdown, logs nothing and ends
  with \<^verbatim>\<open>UnboundLocalError\<close>. At a Runtime whose \<^verbatim>\<open>setup\<close> is interrupted by the user, no
  clause matches \<^verbatim>\<open>KeyboardInterrupt\<close>: \<^verbatim>\<open>run\<close> signals shutdown, logs no error and ends with
  the interrupt.
\<close>

theorem run_construction_failure_escapes:
  "run jina0 pea0 (runtime_ok\<lparr>init_outcome := Raises OtherException\<rparr>) =
     ([Call Init, FlagSet IsShutdown, FlagClear IsReady,
       Unsetenv ''JINA_POD_NAME'', Unsetenv ''JINA_LOG_ID''], Raises UnboundLocalError)
   \<and> run jina0 pea0 (runtime_ok\<lparr>setup_outcome := Raises KeyboardInterrupt\<rparr>) =
     ([Call Init, Logger INFO Starting, Call Setup, FlagSet IsShutdown, FlagClear IsReady,
       Unsetenv ''JINA_POD_NAME'', Unsetenv ''JINA_LOG_ID''], Raises KeyboardInterrupt)"
  by (simp add: run_eq lifecycle_def startup_def startup_handler_def log_error_during_def set_envs_def
      unset_envs_eq flow_defs jina0_def pea0_def pea_of_def args0_def runtime_ok_def init_envs_def init_name_def)

subsection \<open>Finalization\<close>



subsection \<open>Teardown and the shutdown signal\<close>

text \<open>
  Claim C1, as stated, has \<^verbatim>\<open>teardown\<close> called in every execution, in particular after a
  failed \<^verbatim>\<open>setup\<close>. The call sits in the \<^verbatim>\<open>else\<close> block of the outer \<^verbatim>\<open>try\<close>: with a
  \<^verbatim>\<open>setup\<close> that raises, the body logs the failure, skips the ready signal and goes to the
  \<^verbatim>\<open>finally\<close> block without calling \<^verbatim>\<open>teardown\<close>.
\<close>

theorem run_setup_failure_skips_teardown:
  "run jina0 pea0 (runtime_ok\<lparr>setup_outcome := Raises OtherException\<rparr>) =
     ([Call Init, Logger INFO Starting, Call Setup, Logger ERROR DuringSetup,
       FlagSet IsShutdown, FlagClear IsReady,
       Unsetenv ''JINA_POD_NAME'', Unsetenv ''JINA_LOG_ID''], Returns)
   \<and> Call Teardown \<notin> set (fst (run jina0 pea0 (runtime_ok\<lparr>setup_outcome := Raises OtherException\<rparr>)))"
  by (simp add: run_eq lifecycle_setup_fails set_envs_eq unset_envs_eq
      jina0_def pea0_def pea_of_def args0_def runtime_ok_def init_envs_def init_name_def)

lemma run_reaches_teardown:
  assumes "init_outcome rt = Returns" "setup_outcome rt = Returns"
    and "run_forever_outcome rt = Returns \<or> (\<exists>e. run_forever_outcome rt = Raises e \<and> caught J e)"
  shows "\<exists>pre post. fst (run J p rt) = pre @ Call Teardown # post
            \<and> FlagSet IsShutdown \<notin> set pre
            \<and> (teardown_outcome rt \<noteq> Hangs \<longrightarrow> FlagSet IsShutdown \<in> set post)"
proof -
  obtain l1 l2 where sv: "fst (serve J p rt) = FlagSet IsReady # Call RunForever # l1 @ Call Teardown # l2"
    and logs: "\<forall>x\<in>set (l1 @ l2). is_log x"
    and hangs: "snd (serve J p rt) = Hangs \<longleftrightarrow> teardown_outcome rt = Hangs"
    using serve_reaches_teardown[OF assms(3), of p] by blast
  let ?pre = "Call Init # fst (set_envs p) @ [Logger INFO Starting, Call Setup, FlagSet IsReady, Call RunForever] @ l1"
  let ?post = "l2 @ (if teardown_outcome rt = Hangs then [] else [FlagSet IsShutdown, FlagClear IsReady] @ fst (unset_envs p))"
  have "fst (run J p rt) = ?pre @ Call Teardown # ?post"
    using hangs by (simp add: run_eq lifecycle_started[OF assms(1,2)] sv)
  moreover have "FlagSet IsShutdown \<notin> set ?pre"
    using logs by (auto simp: set_envs_eq is_log_def)
  moreover have "teardown_outcome rt \<noteq> Hangs \<longrightarrow> FlagSet IsShutdown \<in> set ?post"
    by simp
  ultimately show ?thesis by blast
qed

lemma run_not_started:
  assumes "init_outcome rt \<noteq> Returns \<or> setup_outcome rt \<noteq> Returns"
  shows "Call Teardown \<notin> set (fst (run J p rt)) \<and> FlagSet IsReady \<notin> set (fst (run J p rt))"
proof (cases "init_outcome rt = Returns")
  case False
  then obtain l where "fst (lifecycle J p rt) = Call Init # l" "\<forall>x\<in>set l. is_log x"
    using lifecycle_init_fails[of rt J p] by blast
  then show ?thesis
    by (auto simp: run_eq unset_envs_eq is_log_def)
next
  case True
  with assms have "setup_outcome rt \<noteq> Returns" by simp
  then show ?thesis
    using True
    by (auto simp: run_eq lifecycle_setup_fails set_envs_eq unset_envs_eq split: outcome.splits if_splits)
qed

lemma run_setup_raises:
  assumes "init_outcome rt = Returns" "setup_outcome rt = Raises e" "isinstance_Exception J e"
  shows "run J p rt =
      (Call Init # fst (set_envs p) @
         [Logger INFO Starting, Call Setup,
          Logger ERROR (if quiet_error (self_args p) then EmptyMessage else DuringSetup),
          FlagSet IsShutdown, FlagClear IsReady] @ fst (unset_envs p), Returns)"
  using assms by (simp add: run_eq lifecycle_setup_fails)

text \<open>
  Claim C1, amended. When the constructor and \<^verbatim>\<open>setup\<close> return and \<^verbatim>\<open>run_forever\<close> returns
  or raises an exception that one of its \<^verbatim>\<open>except\<close> clauses matches, \<^verbatim>\<open>teardown\<close> is called,
  \<^verbatim>\<open>is_shutdown\<close> is not set before that call and, unless \<^verbatim>\<open>teardown\<close> never returns, it is
  set after it. When the constructor or \<^verbatim>\<open>setup\<close> does not return normally, neither
  \<^verbatim>\<open>teardown\<close> is called nor \<^verbatim>\<open>is_ready\<close> set. When \<^verbatim>\<open>setup\<close> raises an instance of
  \<^verbatim>\<open>Exception\<close>, the body logs one error and finalizes: it sets \<^verbatim>\<open>is_shutdown\<close>, clears
  \<^verbatim>\<open>is_ready\<close>, unsets the environment and returns.
\<close>

theorem run_teardown_before_shutdown:
  "(init_outcome rt = Returns \<and> setup_outcome rt = Returns
      \<and> (run_forever_outcome rt = Returns \<or> (\<exists>e. run_forever_outcome rt = Raises e \<and> caught J e))
     \<longrightarrow> (\<exists>pre post. fst (run J p rt) = pre @ Call Teardown # post
            \<and> FlagSet IsShutdown \<notin> set pre
            \<and> (teardown_outcome rt \<noteq> Hangs \<longrightarrow> FlagSet IsShutdown \<in> set post)))
   \<and> (init_outcome rt \<noteq> Returns \<or> setup_outcome rt \<noteq> Returns
     \<longrightarrow> Call Teardown \<notin> set (fst (run J p rt)) \<and> FlagSet IsReady \<notin> set (fst (run J p rt)))
   \<and> (init_outcome rt = Returns \<and> (\<exists>e. setup_outcome rt = Raises e \<and> isinstance_Exception J e)
     \<longrightarrow> run J p rt =
          (Call Init # fst (set_envs p) @
             [Logger INFO Starting, Call Setup,
              Logger ERROR (if quiet_error (self_args p) then EmptyMessage else DuringSetup),
              FlagSet IsShutdown, FlagClear IsReady] @ fst (unset_envs p), Returns))"
  using run_reaches_teardown[of rt J p] run_not_started[of rt J p] run_setup_raises[of rt _ J p]
  by blast

theorem run_teardown_before_shutdown_witness:
  "(\<exists>pre post. fst (run jina0 pea0 runtime_ok) = pre @ Call Teardown # post
       \<and> FlagSet IsShutdown \<notin> set pre \<and> FlagSet IsShutdown \<in> set post)
   \<and> Call Teardown \<notin> set (fst (run jina0 pea0 (runtime_ok\<lparr>setup_outcome := Raises OtherException\<rparr>)))
   \<and> FlagSet IsReady \<notin> set (fst (run jina0 pea0 (runtime_ok\<lparr>setup_outcome := Raises OtherException\<rparr>)))"
proof -
  let ?bad = "runtime_ok\<lparr>setup_outcome := Raises OtherException\<rparr>"
  have ok: "init_outcome runtime_ok = Returns \<and> setup_outcome runtime_ok = Returns
      \<and> (run_forever_outcome runtime_ok = Returns
          \<or> (\<exists>e. run_forever_outcome runtime_ok = Raises e \<and> caught jina0 e))"
    and td: "teardown_outcome runtime_ok \<noteq> Hangs"
    and bad: "init_outcome ?bad \<noteq> Returns \<or> setup_outcome ?bad \<noteq> Returns"
    by (simp_all add: runtime_ok_def caught_def)
  show ?thesis
    using ok td bad
      run_teardown_before_shutdown [where J = jina0 and p = pea0 and rt = runtime_ok]
      run_teardown_before_shutdown [where J = jina0 and p = pea0 and rt = ?bad]
    by blast
qed

subsection \<open>Closing twice\<close>

lemma run_ok_trace:
  "run jina0 pea0 runtime_ok =
     ([Call Init, Logger INFO Starting, Call Setup, FlagSet IsReady, Call RunForever,
       Logger INFO IsEnd, Call Teardown, FlagSet IsShutdown, FlagClear IsReady,
       Unsetenv ''JINA_POD_NAME'', Unsetenv ''JINA_LOG_ID''], Returns)"
  by (simp add: run_eq lifecycle_started serve_def run_forever_handler_def set_envs_eq unset_envs_eq
      flow_defs jina0_def pea0_def pea_of_def args0_def runtime_ok_def init_envs_def init_name_def)

lemma close_not_serving:
  assumes "\<not> (is_ready s \<and> \<not> is_shutdown s)"
  shows "close J p cx s =
       (WorkerJoin (Some 100) #
          (if runtime_backend (self_args p) = PROCESS then [WorkerTerminate] else []) @
          [Logger SUCCESS StopMsg, LoggerClose], Returns)"
proof -
  have c: "(is_ready s \<and> \<not> is_shutdown s) = False" using assms by simp
  show ?thesis
    unfolding close_def c by (simp add: terminate_def flow_defs)
qed


subsection \<open>Waiting for the start\<close>

lemma wait_unblocked:
  assumes "gate = Some t" "timeout_ready (self_args p) \<le> 0 \<or> int t \<le> timeout_ready (self_args p)"
  shows "wait_start_success J p cx gate s =
     (if is_shutdown s
      then ((if quiet_error (self_args p) then [Logger CRITICAL FailToStart] else []),
            Raises RuntimeFailToStart)
      else ([Logger SUCCESS ReadyMsg], Returns))"
  using assms by (auto simp: wait_start_success_def Let_def flow_defs)

lemma wait_timed_out:
  assumes "0 < timeout_ready (self_args p)"
    "gate = None \<or> (\<exists>t. gate = Some t \<and> timeout_ready (self_args p) < int t)"
  shows "wait_start_success J p cx gate s =
     (Logger WARNING TimeoutAfterWaiting # fst (close J p cx s),
      (if snd (close J p cx s) = Returns then Raises TimeoutError else snd (close J p cx s)))"
  using assms by (auto simp: wait_start_success_def Let_def flow_defs split: outcome.splits)

lemma wait_forever:
  assumes "timeout_ready (self_args p) \<le> 0" "gate = None"
  shows "wait_start_success J p cx gate s = ([], Hangs)"
  using assms by (simp add: wait_start_success_def Let_def)

lemma run_ok_window:
  "exec (take 8 (fst (run jina0 pea0 runtime_ok))) state0 =
     \<lparr>is_ready = True, is_shutdown = True, process_env = Map.empty\<rparr>"
  by (simp add: run_ok_trace exec_def state0_def)

text \<open>
  Claim C3, as stated, has \<^verbatim>\<open>wait_start_success\<close> return success whenever the gate unblocks
  with \<^verbatim>\<open>is_ready\<close> true. The method reads \<^verbatim>\<open>is_shutdown\<close> only (line 177). In the state
  that the body of a Runtime that started and ended passes through between lines 162 and
  163, both flags are true, and the method raises \<^verbatim>\<open>RuntimeFailToStart\<close>.
\<close>

theorem wait_start_success_ready_and_shutdown:
  "is_ready (exec (take 8 (fst (run jina0 pea0 runtime_ok))) state0)
   \<and> is_shutdown (exec (take 8 (fst (run jina0 pea0 runtime_ok))) state0)
   \<and> wait_start_success jina0 pea0 calls_ok (Some 0)
        (exec (take 8 (fst (run jina0 pea0 runtime_ok))) state0) = ([], Raises RuntimeFailToStart)"
  unfolding run_ok_window
  by (simp add: wait_start_success_def flow_defs pea0_def pea_of_def args0_def)

text \<open>
  Claim C3, amended. If the gate unblocks (it becomes set within a positive
  \<^verbatim>\<open>timeout_ready\<close>, or at any time when \<^verbatim>\<open>timeout_ready\<close> is not positive) and \<^verbatim>\<open>is_shutdown\<close>
  reads true, the method raises \<^verbatim>\<open>RuntimeFailToStart\<close>, after a critical log entry under
  \<^verbatim>\<open>quiet_error\<close>, whatever \<^verbatim>\<open>is_ready\<close> reads. If the gate unblocks and \<^verbatim>\<open>is_shutdown\<close>
  reads false, it logs the ready message and returns. If the gate does not become set
  within a positive \<^verbatim>\<open>timeout_ready\<close>, it logs a warning, calls \<^verbatim>\<open>close\<close> and, when \<^verbatim>\<open>close\<close>
  returns, raises \<^verbatim>\<open>TimeoutError\<close>.
\<close>

theorem wait_start_success_outcomes:
  "((\<exists>t. gate = Some t \<and> (timeout_ready (self_args p) \<le> 0 \<or> int t \<le> timeout_ready (self_args p)))
      \<and> is_shutdown s
     \<longrightarrow> wait_start_success J p cx gate s =
           ((if quiet_error (self_args p) then [Logger CRITICAL FailToStart] else []),
            Raises RuntimeFailToStart))
   \<and> ((\<exists>t. gate = Some t \<and> (timeout_ready (self_args p) \<le> 0 \<or> int t \<le> timeout_ready (self_args p)))
      \<and> \<not> is_shutdown s
     \<longrightarrow> wait_start_success J p cx gate s = ([Logger SUCCESS ReadyMsg], Returns))
   \<and> (0 < timeout_ready (self_args p)
      \<and> (gate = None \<or> (\<exists>t. gate = Some t \<and> timeout_ready (self_args p) < int t))
     \<longrightarrow> fst (wait_start_success J p cx gate s) =
           Logger WARNING TimeoutAfterWaiting # fst (close J p cx s)
         \<and> (snd (close J p cx s) = Returns
              \<longrightarrow> snd (wait_start_success J p cx gate s) = Raises TimeoutError))"
  using wait_unblocked[of gate _ p J cx s] wait_timed_out[of p gate J cx s]
  by auto

theorem wait_start_success_outcomes_witness:
  "wait_start_success jina0 pea0 calls_ok (Some 3) (exec (fst (run jina0 pea0 runtime_ok)) state0) =
     ([], Raises RuntimeFailToStart)
   \<and> wait_start_success jina0 pea0 calls_ok (Some 3) serving = ([Logger SUCCESS ReadyMsg], Returns)
   \<and> fst (wait_start_success jina0 pea0 calls_ok None state0) =
       Logger WARNING TimeoutAfterWaiting # fst (close jina0 pea0 calls_ok state0)
   \<and> snd (wait_start_success jina0 pea0 calls_ok None state0) = Raises TimeoutError"
proof -
  have tm: "timeout_ready (self_args pea0) = 500" and qe: "\<not> quiet_error (self_args pea0)"
    by (simp_all add: pea0_def pea_of_def args0_def)
  have sh: "is_shutdown (exec (fst (run jina0 pea0 runtime_ok)) state0)"
    by (simp add: run_ok_trace exec_def state0_def)
  have sv: "\<not> is_shutdown serving" by (simp add: serving_def)
  have cl: "snd (close jina0 pea0 calls_ok state0) = Returns"
    by (simp add: close_not_serving state0_def)
  show ?thesis
    using tm qe sh sv cl
      wait_start_success_outcomes [where J = jina0 and p = pea0 and cx = calls_ok
        and gate = "Some 3" and s = "exec (fst (run jina0 pea0 runtime_ok)) state0"]
      wait_start_success_outcomes [where J = jina0 and p = pea0 and cx = calls_ok
        and gate = "Some 3" and s = serving]
      wait_start_success_outcomes [where J = jina0 and p = pea0 and cx = calls_ok
        and gate = None and s = state0]
    by simp
qed

text \<open>
  Claim C8. With \<^verbatim>\<open>timeout_ready\<close> at most 0 the method never raises \<^verbatim>\<open>TimeoutError\<close> and
  never calls \<^verbatim>\<open>close\<close>, whenever the gate becomes set: it does not return while the gate
  stays unset, and once the gate is set it ends according to \<^verbatim>\<open>is_shutdown\<close>.
\<close>

theorem wait_start_success_no_timeout:
  "timeout_ready (self_args p) \<le> 0 \<Longrightarrow>
     snd (wait_start_success J p cx gate s) \<noteq> Raises TimeoutError
     \<and> (\<forall>t. WorkerJoin t \<notin> set (fst (wait_start_success J p cx gate s)))
     \<and> (gate = None \<longrightarrow> wait_start_success J p cx gate s = ([], Hangs))
     \<and> (gate \<noteq> None \<longrightarrow> snd (wait_start_success J p cx gate s) =
            (if is_shutdown s then Raises RuntimeFailToStart else Returns))"
proof -
  assume t: "timeout_ready (self_args p) \<le> 0"
  show ?thesis
  proof (cases gate)
    case None
    then show ?thesis using wait_forever[OF t None, of J cx s] by simp
  next
    case (Some u)
    then show ?thesis using wait_unblocked[OF Some, of p J cx s] t by simp
  qed
qed

theorem wait_start_success_no_timeout_witness:
  "timeout_ready (self_args pea_forever) \<le> 0
   \<and> wait_start_success jina0 pea_forever calls_ok None state0 = ([], Hangs)
   \<and> snd (wait_start_success jina0 pea_forever calls_ok (Some 3600000) serving) = Returns"
proof -
  have tm: "timeout_ready (self_args pea_forever) \<le> 0"
    by (simp add: pea_forever_def pea_of_def args0_def)
  have sv: "\<not> is_shutdown serving" by (simp add: serving_def)
  show ?thesis
    using tm sv
      wait_start_success_no_timeout [OF tm, of jina0 calls_ok None state0]
      wait_start_success_no_timeout [OF tm, of jina0 calls_ok "Some 3600000" serving]
    by simp
qed

subsection \<open>The two flags over an execution of the body\<close>

lemma exec_append: "exec (xs @ ys) s = exec ys (exec xs s)"
  by (simp add: exec_def)

lemma exec_Cons: "exec (x # xs) s = exec xs (apply_event x s)"
  by (simp add: exec_def)

lemma exec_Nil: "exec [] s = s"
  by (simp add: exec_def)

lemma not_shutdown_exec:
  "FlagSet IsShutdown \<notin> set es \<Longrightarrow> \<not> is_shutdown s \<Longrightarrow> \<not> is_shutdown (exec es s)"
proof (induction es arbitrary: s)
  case Nil
  then show ?case by (simp add: exec_Nil)
next
  case (Cons e es)
  have "\<not> is_shutdown (apply_event e s)"
  proof (cases e)
    case (FlagSet f)
    with Cons.prems show ?thesis by (cases f) auto
  next
    case (FlagClear f)
    with Cons.prems show ?thesis by (cases f) auto
  qed (use Cons.prems in auto)
  with Cons show ?case by (simp add: exec_Cons)
qed

lemma not_ready_exec:
  "FlagSet IsReady \<notin> set es \<Longrightarrow> \<not> is_ready s \<Longrightarrow> \<not> is_ready (exec es s)"
proof (induction es arbitrary: s)
  case Nil
  then show ?case by (simp add: exec_Nil)
next
  case (Cons e es)
  have "\<not> is_ready (apply_event e s)"
  proof (cases e)
    case (FlagSet f)
    with Cons.prems show ?thesis by (cases f) auto
  next
    case (FlagClear f)
    with Cons.prems show ?thesis by (cases f) auto
  qed (use Cons.prems in auto)
  with Cons show ?case by (simp add: exec_Cons)
qed

lemma still_shutdown_exec:
  "FlagClear IsShutdown \<notin> set es \<Longrightarrow> is_shutdown s \<Longrightarrow> is_shutdown (exec es s)"
proof (induction es arbitrary: s)
  case Nil
  then show ?case by (simp add: exec_Nil)
next
  case (Cons e es)
  have "is_shutdown (apply_event e s)"
  proof (cases e)
    case (FlagSet f)
    with Cons.prems show ?thesis by (cases f) auto
  next
    case (FlagClear f)
    with Cons.prems show ?thesis by (cases f) auto
  qed (use Cons.prems in auto)
  with Cons show ?case by (simp add: exec_Cons)
qed

lemma prefix_not_shutdown:
  assumes "pre @ us = L" "FlagSet IsShutdown \<notin> set L" "\<not> is_shutdown s"
  shows "\<not> is_shutdown (exec pre s)"
proof -
  have "FlagSet IsShutdown \<notin> set pre" using assms(1,2) by auto
  then show ?thesis using assms(3) by (rule not_shutdown_exec)
qed

lemma both_flags_window:
  assumes L: "FlagSet IsShutdown \<notin> set L" and U: "FlagSet IsReady \<notin> set U"
    and s0: "\<not> is_shutdown s0"
    and eq: "pre @ post = L @ FlagSet IsShutdown # FlagClear IsReady # U"
    and both: "is_ready (exec pre s0)" "is_shutdown (exec pre s0)"
  shows "pre = L @ [FlagSet IsShutdown] \<and> post = FlagClear IsReady # U"
proof -
  from eq obtain us where
    "(pre = L @ us \<and> us @ post = FlagSet IsShutdown # FlagClear IsReady # U)
     \<or> (pre @ us = L \<and> post = us @ FlagSet IsShutdown # FlagClear IsReady # U)"
    by (auto simp: append_eq_append_conv2)
  then show ?thesis
  proof
    assume "pre @ us = L \<and> post = us @ FlagSet IsShutdown # FlagClear IsReady # U"
    then have "\<not> is_shutdown (exec pre s0)" using prefix_not_shutdown L s0 by blast
    with both show ?thesis by simp
  next
    assume a: "pre = L @ us \<and> us @ post = FlagSet IsShutdown # FlagClear IsReady # U"
    show ?thesis
    proof (cases us)
      case Nil
      with a have "\<not> is_shutdown (exec pre s0)" using not_shutdown_exec[OF L s0] by simp
      with both show ?thesis by simp
    next
      case (Cons u us')
      with a have u: "u = FlagSet IsShutdown" and r: "us' @ post = FlagClear IsReady # U" by auto
      show ?thesis
      proof (cases us')
        case Nil
        with a Cons u r show ?thesis by simp
      next
        case c2: (Cons v vs)
        with r have v: "v = FlagClear IsReady" and w: "vs @ post = U" by auto
        have "FlagSet IsReady \<notin> set vs" using w U by auto
        moreover have "\<not> is_ready (exec (L @ [FlagSet IsShutdown, FlagClear IsReady]) s0)"
          by (simp add: exec_append exec_Cons exec_Nil)
        ultimately have nr: "\<not> is_ready (exec vs (exec (L @ [FlagSet IsShutdown, FlagClear IsReady]) s0))"
          by (rule not_ready_exec)
        have "pre = (L @ [FlagSet IsShutdown, FlagClear IsReady]) @ vs"
          using a Cons c2 u v by simp
        then have "exec pre s0 = exec vs (exec (L @ [FlagSet IsShutdown, FlagClear IsReady]) s0)"
          using exec_append[of "L @ [FlagSet IsShutdown, FlagClear IsReady]" vs s0] by simp
        with nr have "\<not> is_ready (exec pre s0)" by simp
        with both show ?thesis by simp
      qed
    qed
  qed
qed

lemma lifecycle_flag_events:
  "FlagSet IsShutdown \<notin> set (fst (lifecycle J p rt))"
  "FlagClear f \<notin> set (fst (lifecycle J p rt))"
  using lifecycle_events[of _ J p rt] by (auto simp: is_log_def)

lemma unset_envs_flag_events:
  "FlagSet f \<notin> set (fst (unset_envs p))" "FlagClear f \<notin> set (fst (unset_envs p))"
  by (auto simp: unset_envs_eq)

text \<open>
  Claim C4, as stated, has \<^verbatim>\<open>is_ready\<close> never true at a point at which \<^verbatim>\<open>is_shutdown\<close> is
  true. The \<^verbatim>\<open>finally\<close> block sets \<^verbatim>\<open>is_shutdown\<close> (line 162) before it clears \<^verbatim>\<open>is_ready\<close>
  (line 163): in the execution of a Runtime that started and ended, from a Pea with both
  flags unset, both flags are true after the eighth action, which is the setting of
  \<^verbatim>\<open>is_shutdown\<close>.
\<close>

theorem run_both_flags_true:
  "is_ready (exec (take 8 (fst (run jina0 pea0 runtime_ok))) state0)
   \<and> is_shutdown (exec (take 8 (fst (run jina0 pea0 runtime_ok))) state0)
   \<and> fst (run jina0 pea0 runtime_ok) ! 7 = FlagSet IsShutdown
   \<and> \<not> is_ready state0 \<and> \<not> is_shutdown state0"
  unfolding run_ok_window by (simp add: run_ok_trace state0_def)

text \<open>
  Claim C4, amended. In every execution of \<^verbatim>\<open>run\<close> from a state with both flags unset:
  \<^verbatim>\<open>is_shutdown\<close> is never cleared; \<^verbatim>\<open>is_ready\<close> is never set after \<^verbatim>\<open>is_shutdown\<close> has been
  set; the two flags are true together at one point at most, right after the setting of
  \<^verbatim>\<open>is_shutdown\<close> and right before the clearing of \<^verbatim>\<open>is_ready\<close>; and when \<^verbatim>\<open>run\<close> ends,
  \<^verbatim>\<open>is_shutdown\<close> is true and \<^verbatim>\<open>is_ready\<close> false.
\<close>

theorem run_flags_monotone:
  assumes "\<not> is_ready s0" and "\<not> is_shutdown s0"
  shows "FlagClear IsShutdown \<notin> set (fst (run J p rt))
    \<and> (\<forall>pre post. fst (run J p rt) = pre @ FlagSet IsReady # post
          \<longrightarrow> FlagSet IsShutdown \<notin> set pre)
    \<and> (\<forall>pre post. fst (run J p rt) = pre @ post
            \<and> is_ready (exec pre s0) \<and> is_shutdown (exec pre s0)
          \<longrightarrow> (\<exists>pre'. pre = pre' @ [FlagSet IsShutdown]) \<and> (\<exists>post'. post = FlagClear IsReady # post'))
    \<and> (snd (run J p rt) \<noteq> Hangs
          \<longrightarrow> is_shutdown (exec (fst (run J p rt)) s0) \<and> \<not> is_ready (exec (fst (run J p rt)) s0))"
proof -
  let ?L = "fst (lifecycle J p rt)"
  let ?U = "fst (unset_envs p)"
  let ?F = "FlagSet IsShutdown # FlagClear IsReady # ?U"
  have shape: "fst (run J p rt) = ?L \<or> fst (run J p rt) = ?L @ ?F"
    by (simp add: run_eq)
  have ends: "snd (run J p rt) \<noteq> Hangs \<Longrightarrow> fst (run J p rt) = ?L @ ?F"
    by (simp add: run_eq split: if_splits)
  have L: "FlagSet IsShutdown \<notin> set ?L" "\<And>f. FlagClear f \<notin> set ?L"
    by (rule lifecycle_flag_events)+
  have U: "\<And>f. FlagSet f \<notin> set ?U" "\<And>f. FlagClear f \<notin> set ?U"
    by (rule unset_envs_flag_events)+
  have c1: "FlagClear IsShutdown \<notin> set (fst (run J p rt))"
    using shape L U by auto
  have c2: "FlagSet IsShutdown \<notin> set pre" if eq: "fst (run J p rt) = pre @ FlagSet IsReady # post"
    for pre post
  proof -
    from shape show ?thesis
    proof
      assume "fst (run J p rt) = ?L"
      with eq L show ?thesis by (metis UnCI set_append)
    next
      assume "fst (run J p rt) = ?L @ ?F"
      with eq have "pre @ FlagSet IsReady # post = ?L @ ?F" by simp
      then obtain us where
        "(pre = ?L @ us \<and> us @ FlagSet IsReady # post = ?F)
         \<or> (pre @ us = ?L \<and> FlagSet IsReady # post = us @ ?F)"
        by (auto simp: append_eq_append_conv2)
      then show ?thesis
      proof
        assume "pre = ?L @ us \<and> us @ FlagSet IsReady # post = ?F"
        then have "FlagSet IsReady \<in> set ?F" by (metis in_set_conv_decomp)
        with U show ?thesis by simp
      next
        assume "pre @ us = ?L \<and> FlagSet IsReady # post = us @ ?F"
        then have "set pre \<subseteq> set ?L" by (metis set_append Un_upper1)
        with L show ?thesis by auto
      qed
    qed
  qed
  have c3: "(\<exists>pre'. pre = pre' @ [FlagSet IsShutdown]) \<and> (\<exists>post'. post = FlagClear IsReady # post')"
    if eq: "fst (run J p rt) = pre @ post"
      and both: "is_ready (exec pre s0)" "is_shutdown (exec pre s0)" for pre post
  proof -
    from shape show ?thesis
    proof
      assume "fst (run J p rt) = ?L"
      with eq have "pre @ post = ?L" by simp
      then have "\<not> is_shutdown (exec pre s0)"
        using prefix_not_shutdown L(1) assms(2) by blast
      with both show ?thesis by simp
    next
      assume "fst (run J p rt) = ?L @ ?F"
      with eq have "pre @ post = ?L @ ?F" by simp
      from both_flags_window[OF L(1) U(1) assms(2) this both] show ?thesis by blast
    qed
  qed
  have c4: "is_shutdown (exec (fst (run J p rt)) s0) \<and> \<not> is_ready (exec (fst (run J p rt)) s0)"
    if "snd (run J p rt) \<noteq> Hangs"
  proof -
    let ?s = "exec (?L @ [FlagSet IsShutdown, FlagClear IsReady]) s0"
    have tr: "fst (run J p rt) = (?L @ [FlagSet IsShutdown, FlagClear IsReady]) @ ?U"
      using ends[OF that] by simp
    have s: "is_shutdown ?s" "\<not> is_ready ?s"
      by (simp_all add: exec_append exec_Cons exec_Nil)
    have "\<not> is_ready (exec ?U ?s)"
      using U(1) s(2) by (rule not_ready_exec)
    moreover have "is_shutdown (exec ?U ?s)"
      using U(2) s(1) by (rule still_shutdown_exec)
    ultimately show ?thesis unfolding tr exec_append by simp
  qed
  from c1 c2 c3 c4 show ?thesis by blast
qed

theorem run_flags_monotone_witness:
  "\<not> is_ready state0 \<and> \<not> is_shutdown state0
   \<and> FlagClear IsShutdown \<notin> set (fst (run jina0 pea0 runtime_ok))
   \<and> (\<exists>pre'. take 8 (fst (run jina0 pea0 runtime_ok)) = pre' @ [FlagSet IsShutdown])
   \<and> (\<exists>post'. drop 8 (fst (run jina0 pea0 runtime_ok)) = FlagClear IsReady # post')
   \<and> is_shutdown (exec (fst (run jina0 pea0 runtime_ok)) state0)
   \<and> \<not> is_ready (exec (fst (run jina0 pea0 runtime_ok)) state0)"
proof -
  let ?tr = "fst (run jina0 pea0 runtime_ok)"
  have r: "\<not> is_ready state0" and sh: "\<not> is_shutdown state0"
    by (simp_all add: state0_def)
  have ends: "snd (run jina0 pea0 runtime_ok) \<noteq> Hangs"
    by (simp add: run_ok_trace)
  have split: "?tr = take 8 ?tr @ drop 8 ?tr" by simp
  have both: "is_ready (exec (take 8 ?tr) state0)" "is_shutdown (exec (take 8 ?tr) state0)"
    unfolding run_ok_window by simp_all
  show ?thesis
    using r sh ends split both run_flags_monotone [OF r sh, of jina0 pea0 runtime_ok]
    by blast
qed

subsection \<open>The environment of the process\<close>

lemma distinct_dict_update:
  "distinct (map fst d) \<Longrightarrow> distinct (map fst (dict_update d other))"
  unfolding dict_update_def
proof (induction other arbitrary: d)
  case Nil
  then show ?case by simp
next
  case (Cons x other)
  obtain k v where x: "x = (k, v)" by (cases x)
  have "distinct (map fst (AList.update k v d))"
    using Cons.prems by (rule distinct_update)
  from Cons.IH[OF this] show ?case by (simp add: x)
qed

lemma keys_dict_update: "k \<in> fst ` set d \<Longrightarrow> k \<in> fst ` set (dict_update d other)"
  unfolding dict_update_def
proof (induction other arbitrary: d)
  case Nil
  then show ?case by simp
next
  case (Cons x other)
  obtain k' v where x: "x = (k', v)" by (cases x)
  have "k \<in> fst ` set (AList.update k' v d)"
    using Cons.prems by (simp add: dom_update)
  from Cons.IH[OF this] show ?case by (simp add: x)
qed

lemma distinct_init_envs: "distinct (map fst (init_envs a))"
proof -
  let ?e0 = "[(''JINA_POD_NAME'', init_name a), (''JINA_LOG_ID'', identity a)]"
  have d0: "distinct (map fst ?e0)" by simp
  then have d1: "distinct (map fst (AList.update ''JINA_LOG_CONFIG'' ''QUIET'' ?e0))"
    by (rule distinct_update)
  show ?thesis
    using d0 d1 distinct_dict_update[OF d0, of "env a"] distinct_dict_update[OF d1, of "env a"]
    by (simp add: init_envs_def Let_def)
qed

lemma init_envs_keys:
  "''JINA_POD_NAME'' \<in> fst ` set (init_envs a)" "''JINA_LOG_ID'' \<in> fst ` set (init_envs a)"
proof -
  let ?e0 = "[(''JINA_POD_NAME'', init_name a), (''JINA_LOG_ID'', identity a)]"
  let ?e1 = "AList.update ''JINA_LOG_CONFIG'' ''QUIET'' ?e0"
  have k0: "''JINA_POD_NAME'' \<in> fst ` set ?e0" "''JINA_LOG_ID'' \<in> fst ` set ?e0" by simp_all
  have k1: "''JINA_POD_NAME'' \<in> fst ` set ?e1" "''JINA_LOG_ID'' \<in> fst ` set ?e1" by simp_all
  show "''JINA_POD_NAME'' \<in> fst ` set (init_envs a)"
    using k0(1) k1(1) keys_dict_update[OF k0(1), of "env a"] keys_dict_update[OF k1(1), of "env a"]
    by (simp add: init_envs_def Let_def)
  show "''JINA_LOG_ID'' \<in> fst ` set (init_envs a)"
    using k0(2) k1(2) keys_dict_update[OF k0(2), of "env a"] keys_dict_update[OF k1(2), of "env a"]
    by (simp add: init_envs_def Let_def)
qed

lemma get_runtime_cls_args:
  "env (fst (get_runtime_cls J a)) = env a"
  "runtime_backend (fst (get_runtime_cls J a)) = runtime_backend a"
  by (simp_all add: get_runtime_cls_def Let_def)

lemma init_Some:
  assumes "init J ca ra a = Some p"
  shows "self_envs p = init_envs a" "env (self_args p) = env a"
    "runtime_backend (self_args p) = runtime_backend a"
proof -
  obtain a' r where g: "get_runtime_cls J a = (a', r)" by (cases "get_runtime_cls J a")
  with assms obtain v remote where r: "r = Some (v, remote)"
    by (cases r) (auto simp: init_def)
  have p: "self_envs p = init_envs a" "self_args p = a'"
    using assms g r by (auto simp: init_def)
  show "self_envs p = init_envs a" by (rule p(1))
  show "env (self_args p) = env a" using get_runtime_cls_args(1)[of J a] g p(2) by simp
  show "runtime_backend (self_args p) = runtime_backend a"
    using get_runtime_cls_args(2)[of J a] g p(2) by simp
qed

lemma environ_update_other:
  "k \<notin> fst ` set kvs \<Longrightarrow> fold (\<lambda>(k, v) m. m(k \<mapsto> v)) kvs m k = m k"
  by (induction kvs arbitrary: m) auto

lemma environ_update_distinct:
  "distinct (map fst kvs) \<Longrightarrow> (k, v) \<in> set kvs \<Longrightarrow>
     fold (\<lambda>(k, v) m. m(k \<mapsto> v)) kvs m k = Some v"
proof (induction kvs arbitrary: m)
  case Nil
  then show ?case by simp
next
  case (Cons x kvs)
  obtain k' v' where x: "x = (k', v')" by (cases x)
  show ?case
  proof (cases "(k, v) \<in> set kvs")
    case True
    with Cons show ?thesis by simp
  next
    case False
    with Cons.prems x have kv: "k = k'" "v = v'" and nk: "k \<notin> fst ` set kvs" by auto
    have "fold (\<lambda>(k, v) m. m(k \<mapsto> v)) (x # kvs) m k
          = fold (\<lambda>(k, v) m. m(k \<mapsto> v)) kvs (m(k' \<mapsto> v')) k"
      by (simp add: x)
    also have "\<dots> = (m(k' \<mapsto> v')) k" by (rule environ_update_other[OF nk])
    also have "\<dots> = Some v" using kv by simp
    finally show ?thesis .
  qed
qed

lemma env_exec_unchanged:
  "(\<forall>x\<in>set es. (\<exists>c. x = Call c) \<or> is_log x \<or> (\<exists>f. x = FlagSet f) \<or> (\<exists>f. x = FlagClear f))
     \<Longrightarrow> process_env (exec es s) = process_env s"
proof (induction es arbitrary: s)
  case Nil
  then show ?case by (simp add: exec_Nil)
next
  case (Cons e es)
  have "process_env (apply_event e s) = process_env s"
  proof (cases e)
    case (FlagSet f)
    then show ?thesis by (cases f) simp_all
  next
    case (FlagClear f)
    then show ?thesis by (cases f) simp_all
  next
    case (EnvironUpdate kvs)
    with Cons.prems show ?thesis by (simp add: is_log_def)
  next
    case (Unsetenv k)
    with Cons.prems show ?thesis by (simp add: is_log_def)
  qed simp_all
  with Cons show ?case by (simp add: exec_Cons)
qed

lemma env_exec_unsetenv:
  "process_env (exec (map Unsetenv ks) s) k = (if k \<in> set ks then None else process_env s k)"
  by (induction ks arbitrary: s) (simp_all add: exec_Nil exec_Cons)

lemma occurs_in_middle:
  assumes A: "x \<notin> set A" and F: "x \<notin> set F" and eq: "pre @ x # post = A @ M @ F"
  shows "\<exists>m1 m2. pre = A @ m1 \<and> M = m1 @ x # m2"
proof -
  have "\<exists>us. pre = A @ us \<and> us @ x # post = M @ F"
  proof -
    from eq consider us where "pre = A @ us" "us @ x # post = M @ F"
      | us where "pre @ us = A" "x # post = us @ M @ F"
      unfolding append_eq_append_conv2 by blast
    then show ?thesis
    proof cases
      case 1
      then show ?thesis by blast
    next
      case 2
      show ?thesis
      proof (cases us)
        case Nil
        with 2 show ?thesis by simp
      next
        case (Cons u us')
        with 2 have "x \<in> set A" by auto
        with A show ?thesis by simp
      qed
    qed
  qed
  then obtain us where pre: "pre = A @ us" and eq2: "us @ x # post = M @ F" by blast
  from eq2 consider vs where "us = M @ vs" "vs @ x # post = F"
    | vs where "us @ vs = M" "x # post = vs @ F"
    unfolding append_eq_append_conv2 by blast
  then show ?thesis
  proof cases
    case 1
    then have "x \<in> set F" by auto
    with F show ?thesis by simp
  next
    case 2
    show ?thesis
    proof (cases vs)
      case Nil
      with 2 have "x \<in> set F" by (metis list.set_intros(1) append_Nil)
      with F show ?thesis by simp
    next
      case (Cons v vs')
      with 2 have "v = x" by simp
      with 2 Cons pre show ?thesis by auto
    qed
  qed
qed

lemma serve_plain: "\<forall>x\<in>set (fst (serve J p rt)). plain x"
  using serve_events[of _ J p rt] by (auto simp: plain_def)

lemma lifecycle_after_init:
  assumes "init_outcome rt = Returns"
  shows "\<exists>M. fst (lifecycle J p rt) = (Call Init # fst (set_envs p) @ [Logger INFO Starting]) @ M
            \<and> (\<forall>x\<in>set M. plain x)"
proof (cases "setup_outcome rt = Returns")
  case True
  have "fst (lifecycle J p rt) =
      (Call Init # fst (set_envs p) @ [Logger INFO Starting]) @ (Call Setup # fst (serve J p rt))"
    by (simp add: lifecycle_started[OF assms True])
  moreover have "\<forall>x\<in>set (Call Setup # fst (serve J p rt)). plain x"
    using serve_plain[of J p rt] by (simp add: plain_def)
  ultimately show ?thesis by blast
next
  case False
  let ?M = "Call Setup # (case setup_outcome rt of
              Raises e \<Rightarrow> if isinstance_Exception J e
                then [Logger ERROR (if quiet_error (self_args p) then EmptyMessage else DuringSetup)]
                else []
            | _ \<Rightarrow> [])"
  have "fst (lifecycle J p rt) = (Call Init # fst (set_envs p) @ [Logger INFO Starting]) @ ?M"
    using False by (cases "setup_outcome rt") (simp_all add: lifecycle_setup_fails[OF assms])
  moreover have "\<forall>x\<in>set ?M. plain x"
    by (cases "setup_outcome rt") (simp_all add: plain_def is_log_def)
  ultimately show ?thesis by blast
qed

lemma plain_env_unchanged:
  assumes "\<forall>x\<in>set es. plain x"
  shows "process_env (exec es s) = process_env s"
  using assms by (intro env_exec_unchanged) (auto simp: plain_def)

lemma run_env_at_call:
  assumes ov: "env (self_args p) \<noteq> []" and be: "runtime_backend (self_args p) \<noteq> THREAD"
    and di: "distinct (map fst (self_envs p))"
    and c: "c \<noteq> Init" and eq: "fst (run J p rt) = pre @ Call c # post"
    and kv: "(k, v) \<in> set (self_envs p)"
  shows "process_env (exec pre s) k = Some v"
proof -
  let ?L = "fst (lifecycle J p rt)"
  let ?F = "[FlagSet IsShutdown, FlagClear IsReady] @ fst (unset_envs p)"
  obtain F' where tr: "fst (run J p rt) = ?L @ F'" and F': "F' = [] \<or> F' = ?F"
    by (cases "snd (lifecycle J p rt) = Hangs") (simp_all add: run_eq)
  have cF: "Call c \<notin> set F'" using F' by (auto simp: unset_envs_eq split: if_splits)
  show ?thesis
  proof (cases "init_outcome rt = Returns")
    case False
    then obtain l where "?L = Call Init # l" "\<forall>x\<in>set l. is_log x"
      using lifecycle_init_fails[of rt J p] by blast
    then have "Call c \<notin> set ?L" using c by (auto simp: is_log_def)
    with cF tr have "Call c \<notin> set (fst (run J p rt))" by simp
    with eq show ?thesis by simp
  next
    case True
    let ?A = "Call Init # fst (set_envs p) @ [Logger INFO Starting]"
    obtain M where L: "?L = ?A @ M" and M: "\<forall>x\<in>set M. plain x"
      using lifecycle_after_init[OF True, of J p] by blast
    have A: "?A = [Call Init, EnvironUpdate (self_envs p), Logger INFO Starting]"
      using ov be by (simp add: set_envs_eq)
    have cA: "Call c \<notin> set ?A" using c by (simp add: A)
    have "pre @ Call c # post = ?A @ M @ F'" using eq tr L by simp
    from occurs_in_middle[OF cA cF this] obtain m1 m2
      where pre: "pre = ?A @ m1" and "M = m1 @ Call c # m2" by blast
    with M have m1: "\<forall>x\<in>set m1. plain x" by simp
    have "process_env (exec pre s) = process_env (exec ?A s)"
      unfolding pre exec_append by (rule plain_env_unchanged[OF m1])
    also have "\<dots> = fold (\<lambda>(k, v) m. m(k \<mapsto> v)) (self_envs p) (process_env s)"
      unfolding A by (simp add: exec_Cons exec_Nil)
    finally show ?thesis using environ_update_distinct[OF di kv] by simp
  qed
qed

lemma run_env_at_end:
  assumes be: "runtime_backend (self_args p) \<noteq> THREAD"
    and ends: "snd (run J p rt) \<noteq> Hangs" and k: "k \<in> fst ` set (self_envs p)"
  shows "process_env (exec (fst (run J p rt)) s) k = None"
proof -
  let ?B = "fst (lifecycle J p rt) @ [FlagSet IsShutdown, FlagClear IsReady]"
  have "fst (run J p rt) = ?B @ map Unsetenv (map fst (self_envs p))"
    using ends be by (simp add: run_eq unset_envs_eq split: if_splits del: map_map)
  then have "process_env (exec (fst (run J p rt)) s) k
      = process_env (exec (map Unsetenv (map fst (self_envs p))) (exec ?B s)) k"
    by (simp only: exec_append)
  also have "\<dots> = None" using k by (simp add: env_exec_unsetenv del: map_map)
  finally show ?thesis .
qed

lemma run_env_thread:
  assumes be: "runtime_backend (self_args p) = THREAD" and eq: "fst (run J p rt) = pre @ post"
  shows "process_env (exec pre s) = process_env s"
proof -
  have U: "fst (unset_envs p) = []" using be by (simp add: unset_envs_eq)
  have S: "\<forall>x\<in>set (fst (set_envs p)). is_log x" using be by (simp add: set_envs_eq is_log_def)
  have L: "\<forall>x\<in>set (fst (lifecycle J p rt)). (\<exists>c. x = Call c) \<or> is_log x \<or> (\<exists>f. x = FlagSet f)"
  proof (cases "init_outcome rt = Returns")
    case True
    then obtain M where "fst (lifecycle J p rt) = (Call Init # fst (set_envs p) @ [Logger INFO Starting]) @ M"
      "\<forall>x\<in>set M. plain x"
      using lifecycle_after_init[of rt J p] by blast
    with S show ?thesis by (auto simp: plain_def is_log_def)
  next
    case False
    then obtain l where "fst (lifecycle J p rt) = Call Init # l" "\<forall>x\<in>set l. is_log x"
      using lifecycle_init_fails[of rt J p] by blast
    then show ?thesis by auto
  qed
  have "\<forall>x\<in>set (fst (run J p rt)). (\<exists>c. x = Call c) \<or> is_log x \<or> (\<exists>f. x = FlagSet f) \<or> (\<exists>f. x = FlagClear f)"
    using L U by (auto simp: run_eq)
  then have "\<forall>x\<in>set pre. (\<exists>c. x = Call c) \<or> is_log x \<or> (\<exists>f. x = FlagSet f) \<or> (\<exists>f. x = FlagClear f)"
    using eq by simp
  then show ?thesis by (rule env_exec_unchanged)
qed

lemma run_thread_warning:
  assumes "env (self_args p) \<noteq> []" "runtime_backend (self_args p) = THREAD" "init_outcome rt = Returns"
  shows "Logger WARNING EnvsWithThread \<in> set (fst (run J p rt))"
proof -
  obtain M where "fst (lifecycle J p rt) = (Call Init # fst (set_envs p) @ [Logger INFO Starting]) @ M"
    using lifecycle_after_init[OF assms(3), of J p] by blast
  then have "Logger WARNING EnvsWithThread \<in> set (fst (lifecycle J p rt))"
    using assms(1,2) by (simp add: set_envs_eq)
  then show ?thesis by (auto simp: run_eq)
qed

lemma init_args0:
  "init jina0 ''tcp://0.0.0.0:5000'' ''ipc:///tmp/ctrl'' args0 = Some pea0"
  by (simp add: init_def get_runtime_cls_def jina0_def args0_def pea0_def pea_of_def
      init_envs_def init_name_def)

lemma init_args_env:
  "init jina0 ''tcp://0.0.0.0:5000'' ''ipc:///tmp/ctrl'' (args0\<lparr>env := [(''DEBUG'', ''1'')]\<rparr>)
     = Some pea_env"
  by (simp add: init_def get_runtime_cls_def jina0_def args0_def pea_env_def pea_of_def
      init_envs_def init_name_def)

lemma init_args_thread_env:
  "init jina0 ''tcp://0.0.0.0:5000'' ''ipc:///tmp/ctrl''
     (args0\<lparr>runtime_backend := THREAD, env := [(''DEBUG'', ''1'')]\<rparr>) = Some pea_thread_env"
  by (simp add: init_def get_runtime_cls_def jina0_def args0_def pea_thread_env_def pea_of_def
      init_envs_def init_name_def)

lemma run_env_trace:
  "run jina0 pea_env runtime_ok =
     ([Call Init,
       EnvironUpdate [(''JINA_POD_NAME'', ''pea0''), (''JINA_LOG_ID'', ''id0''), (''DEBUG'', ''1'')],
       Logger INFO Starting, Call Setup, FlagSet IsReady, Call RunForever,
       Logger INFO IsEnd, Call Teardown, FlagSet IsShutdown, FlagClear IsReady,
       Unsetenv ''JINA_POD_NAME'', Unsetenv ''JINA_LOG_ID'', Unsetenv ''DEBUG''], Returns)"
  by (simp add: run_eq lifecycle_started serve_def run_forever_handler_def set_envs_eq unset_envs_eq
      flow_defs jina0_def pea_env_def pea_of_def args0_def runtime_ok_def init_envs_def init_name_def
      dict_update_def)

lemma run_thread_env_trace:
  "run jina0 pea_thread_env runtime_ok =
     ([Call Init, Logger WARNING EnvsWithThread,
       Logger INFO Starting, Call Setup, FlagSet IsReady, Call RunForever,
       Logger INFO IsEnd, Call Teardown, FlagSet IsShutdown, FlagClear IsReady], Returns)"
  by (simp add: run_eq lifecycle_started serve_def run_forever_handler_def set_envs_eq unset_envs_eq
      flow_defs jina0_def pea_thread_env_def pea_of_def args0_def runtime_ok_def init_envs_def
      init_name_def dict_update_def)

lemma run_thread_trace:
  "run jina0 pea_thread runtime_ok =
     ([Call Init, Logger INFO Starting, Call Setup, FlagSet IsReady, Call RunForever,
       Logger INFO IsEnd, Call Teardown, FlagSet IsShutdown, FlagClear IsReady], Returns)"
  by (simp add: run_eq lifecycle_started serve_def run_forever_handler_def set_envs_eq unset_envs_eq
      flow_defs jina0_def pea_thread_def pea_of_def args0_def runtime_ok_def init_envs_def
      init_name_def)

text \<open>
  Claim C9, as stated, has the variables of \<^verbatim>\<open>_envs\<close> applied before \<^verbatim>\<open>setup\<close> under the
  process backend, and a warning logged under the thread backend. \<^verbatim>\<open>_set_envs\<close> does either
  only if \<^verbatim>\<open>args.env\<close> is not empty (line 263). The Pea constructed from a configuration
  with no overrides and the process backend holds \<^verbatim>\<open>JINA_POD_NAME\<close> in \<^verbatim>\<open>_envs\<close>, yet when
  \<^verbatim>\<open>setup\<close> is called (the third action) the variable is not in the environment; under the
  thread backend the body logs no warning.
\<close>

theorem run_envs_not_applied_without_overrides:
  "init jina0 ''tcp://0.0.0.0:5000'' ''ipc:///tmp/ctrl'' args0 = Some pea0
   \<and> runtime_backend (self_args pea0) = PROCESS
   \<and> map_of (self_envs pea0) ''JINA_POD_NAME'' = Some ''pea0''
   \<and> fst (run jina0 pea0 runtime_ok) ! 2 = Call Setup
   \<and> process_env (exec (take 2 (fst (run jina0 pea0 runtime_ok))) state0) ''JINA_POD_NAME'' = None
   \<and> runtime_backend (self_args pea_thread) = THREAD
   \<and> Logger WARNING EnvsWithThread \<notin> set (fst (run jina0 pea_thread runtime_ok))"
proof -
  have a: "runtime_backend (self_args pea0) = PROCESS"
    and b: "map_of (self_envs pea0) ''JINA_POD_NAME'' = Some ''pea0''"
    by (simp_all add: pea0_def pea_of_def args0_def init_envs_def init_name_def)
  have c: "fst (run jina0 pea0 runtime_ok) ! 2 = Call Setup"
    by (simp add: run_ok_trace)
  have d: "process_env (exec (take 2 (fst (run jina0 pea0 runtime_ok))) state0) ''JINA_POD_NAME'' = None"
    by (simp add: run_ok_trace exec_def state0_def)
  have e: "runtime_backend (self_args pea_thread) = THREAD"
    by (simp add: pea_thread_def pea_of_def args0_def)
  have f: "Logger WARNING EnvsWithThread \<notin> set (fst (run jina0 pea_thread runtime_ok))"
    by (simp add: run_thread_trace)
  from init_args0 a b c d e f show ?thesis by blast
qed

lemma run_no_environ_update:
  assumes "env (self_args p) = []"
  shows "EnvironUpdate kvs \<notin> set (fst (run J p rt))"
proof -
  have S: "fst (set_envs p) = []" using assms by (simp add: set_envs_eq)
  have "EnvironUpdate kvs \<notin> set (fst (lifecycle J p rt))"
  proof (cases "init_outcome rt = Returns")
    case True
    then obtain M where "fst (lifecycle J p rt) = (Call Init # fst (set_envs p) @ [Logger INFO Starting]) @ M"
      "\<forall>x\<in>set M. plain x"
      using lifecycle_after_init[of rt J p] by blast
    with S show ?thesis by (auto simp: plain_def is_log_def)
  next
    case False
    then obtain l where "fst (lifecycle J p rt) = Call Init # l" "\<forall>x\<in>set l. is_log x"
      using lifecycle_init_fails[of rt J p] by blast
    then show ?thesis by (auto simp: is_log_def)
  qed
  then show ?thesis by (auto simp: run_eq unset_envs_eq)
qed

lemma run_unsetenv_after_teardown:
  assumes "fst (run J p rt) = pre @ Call Teardown # post"
  shows "Unsetenv k \<notin> set pre"
proof -
  let ?L = "fst (lifecycle J p rt)"
  obtain F' where tr: "fst (run J p rt) = ?L @ F'"
    and F': "F' = [] \<or> F' = [FlagSet IsShutdown, FlagClear IsReady] @ fst (unset_envs p)"
    by (cases "snd (lifecycle J p rt) = Hangs") (simp_all add: run_eq)
  have cF: "Call Teardown \<notin> set F'" using F' by (auto simp: unset_envs_eq split: if_splits)
  have eq: "pre @ Call Teardown # post = [] @ ?L @ F'" using assms tr by simp
  have nil: "Call Teardown \<notin> set []" by simp
  from occurs_in_middle[OF nil cF eq] obtain m1 m2
    where m: "pre = [] @ m1" "?L = m1 @ Call Teardown # m2" by blast
  then have "?L = pre @ Call Teardown # m2" by simp
  then have "set pre \<subseteq> set ?L" by (metis set_append Un_upper1)
  moreover have "Unsetenv k \<notin> set ?L"
    using lifecycle_events[of "Unsetenv k" J p rt] by (auto simp: is_log_def)
  ultimately show ?thesis by auto
qed

lemma run_unsetenv_at_end:
  assumes be: "runtime_backend (self_args p) \<noteq> THREAD"
    and ends: "snd (run J p rt) \<noteq> Hangs" and k: "k \<in> fst ` set (self_envs p)"
  shows "Unsetenv k \<in> set (fst (run J p rt))"
  using assms by (auto simp: run_eq unset_envs_eq split: if_splits)

text \<open>
  Claim C10. For a Pea constructed from a configuration with the process backend and an
  empty \<^verbatim>\<open>args.env\<close>: \<^verbatim>\<open>_set_envs\<close> does nothing and \<^verbatim>\<open>run\<close> never updates the environment;
  \<^verbatim>\<open>_unset_envs\<close> unsets every key of \<^verbatim>\<open>_envs\<close>, among them \<^verbatim>\<open>JINA_POD_NAME\<close> and
  \<^verbatim>\<open>JINA_LOG_ID\<close>; no variable is unset before \<^verbatim>\<open>teardown\<close> is called; and when \<^verbatim>\<open>run\<close> has
  ended every key of \<^verbatim>\<open>_envs\<close> has been unset and is absent from the environment, whatever
  the environment held at the start.
\<close>

theorem run_unsets_what_it_never_set:
  assumes "init J ca ra a = Some p" and "env a = []" and "runtime_backend a = PROCESS"
  shows "set_envs p = ([], Returns)
    \<and> (\<forall>kvs. EnvironUpdate kvs \<notin> set (fst (run J p rt)))
    \<and> unset_envs p = (map Unsetenv (map fst (self_envs p)), Returns)
    \<and> ''JINA_POD_NAME'' \<in> fst ` set (self_envs p) \<and> ''JINA_LOG_ID'' \<in> fst ` set (self_envs p)
    \<and> (\<forall>pre post k. fst (run J p rt) = pre @ Call Teardown # post \<longrightarrow> Unsetenv k \<notin> set pre)
    \<and> (snd (run J p rt) \<noteq> Hangs \<longrightarrow>
          (\<forall>k\<in>fst ` set (self_envs p).
              Unsetenv k \<in> set (fst (run J p rt))
              \<and> process_env (exec (fst (run J p rt)) s) k = None))"
proof -
  note i = init_Some[OF assms(1)]
  have ov: "env (self_args p) = []" using assms(2) i(2) by simp
  have be: "runtime_backend (self_args p) \<noteq> THREAD" using assms(3) i(3) by simp
  have 1: "set_envs p = ([], Returns)" using ov by (simp add: set_envs_eq)
  have 2: "\<forall>kvs. EnvironUpdate kvs \<notin> set (fst (run J p rt))"
    by (intro allI) (rule run_no_environ_update[OF ov])
  have 3: "unset_envs p = (map Unsetenv (map fst (self_envs p)), Returns)"
    using be by (simp add: unset_envs_eq del: map_map)
  have 4: "''JINA_POD_NAME'' \<in> fst ` set (self_envs p)" "''JINA_LOG_ID'' \<in> fst ` set (self_envs p)"
    using init_envs_keys[of a] i(1) by simp_all
  have 5: "\<forall>pre post k. fst (run J p rt) = pre @ Call Teardown # post \<longrightarrow> Unsetenv k \<notin> set pre"
  proof (intro allI impI)
    fix pre post k
    assume "fst (run J p rt) = pre @ Call Teardown # post"
    then show "Unsetenv k \<notin> set pre" by (rule run_unsetenv_after_teardown)
  qed
  have 6: "snd (run J p rt) \<noteq> Hangs \<longrightarrow>
          (\<forall>k\<in>fst ` set (self_envs p).
              Unsetenv k \<in> set (fst (run J p rt))
              \<and> process_env (exec (fst (run J p rt)) s) k = None)"
  proof (intro impI ballI conjI)
    fix k
    assume e: "snd (run J p rt) \<noteq> Hangs" and k: "k \<in> fst ` set (self_envs p)"
    show "Unsetenv k \<in> set (fst (run J p rt))" by (rule run_unsetenv_at_end[OF be e k])
    show "process_env (exec (fst (run J p rt)) s) k = None" by (rule run_env_at_end[OF be e k])
  qed
  from 1 2 3 4 5 6 show ?thesis by (intro conjI)
qed

theorem run_unsets_what_it_never_set_witness:
  "process_env state_inherited ''JINA_POD_NAME'' = Some ''parent''
   \<and> set_envs pea0 = ([], Returns)
   \<and> Unsetenv ''JINA_POD_NAME'' \<in> set (fst (run jina0 pea0 runtime_ok))
   \<and> process_env (exec (fst (run jina0 pea0 runtime_ok)) state_inherited) ''JINA_POD_NAME'' = None"
proof -
  have e: "env args0 = []" and b: "runtime_backend args0 = PROCESS"
    by (simp_all add: args0_def)
  have ends: "snd (run jina0 pea0 runtime_ok) \<noteq> Hangs"
    by (simp add: run_ok_trace)
  have inh: "process_env state_inherited ''JINA_POD_NAME'' = Some ''parent''"
    by (simp add: state_inherited_def)
  have k: "''JINA_POD_NAME'' \<in> fst ` set (self_envs pea0)"
    by (simp add: pea0_def pea_of_def args0_def init_envs_def)
  note t = run_unsets_what_it_never_set [OF init_args0 e b, of runtime_ok state_inherited]
  from t have 1: "set_envs pea0 = ([], Returns)" by (rule conjunct1)
  from t ends have "\<forall>k\<in>fst ` set (self_envs pea0).
       Unsetenv k \<in> set (fst (run jina0 pea0 runtime_ok))
       \<and> process_env (exec (fst (run jina0 pea0 runtime_ok)) state_inherited) k = None"
    by simp
  then have 2: "Unsetenv ''JINA_POD_NAME'' \<in> set (fst (run jina0 pea0 runtime_ok))
       \<and> process_env (exec (fst (run jina0 pea0 runtime_ok)) state_inherited) ''JINA_POD_NAME'' = None"
    using k by (rule bspec)
  from inh 1 2 show ?thesis by (intro conjI) simp_all
qed

subsection \<open>Closing twice: the second call\<close>





lemma in_py_seq: "x \<in> set (fst (py_seq a b)) \<Longrightarrow> x \<in> set (fst a) \<or> x \<in> set (fst b)"
  by (cases "snd a") (auto simp: py_seq_def)

lemma in_py_try_except:
  "x \<in> set (fst (py_try_except b h)) \<Longrightarrow>
     x \<in> set (fst b) \<or> (\<exists>e r. h e = Some r \<and> x \<in> set (fst r))"
proof (cases "snd b")
  case (Raises e)
  assume x: "x \<in> set (fst (py_try_except b h))"
  show ?thesis
  proof (cases "h e")
    case None
    with Raises x show ?thesis by (simp add: py_try_except_def)
  next
    case (Some r)
    with Raises x have "x \<in> set (fst b) \<or> x \<in> set (fst r)" by (auto simp: py_try_except_def)
    with Some show ?thesis by blast
  qed
qed (simp_all add: py_try_except_def)

lemma block_Cons: "block (r # rs) = py_seq r (block rs)"
  by (simp add: block_def)

lemma block_Nil: "block [] = py_pass"
  by (simp add: block_def)








subsection \<open>The environment of the process: with and without overrides\<close>

text \<open>
  \<^verbatim>\<open>_set_envs\<close> (lines 252-269) is the only place of the lifecycle body that logs at the
  level of a warning, and it is reached only after the constructor of the Runtime has
  returned (lines 110-115). The actions of \<^verbatim>\<open>run\<close> that come before a call of the Runtime are
  actions of the body, not of the finalization.
\<close>

lemma serve_no_warning: "Logger WARNING m \<notin> set (fst (serve J p rt))"
  unfolding serve_def block_Cons block_Nil
  by (auto dest!: in_py_seq in_py_try_except
      simp: act_def call_def py_pass_def run_forever_handler_def log_error_during_bound
      split: if_splits)

lemma lifecycle_warning:
  assumes "Logger WARNING m \<in> set (fst (lifecycle J p rt))"
  shows "init_outcome rt = Returns \<and> Logger WARNING m \<in> set (fst (set_envs p))"
proof (cases "init_outcome rt = Returns")
  case False
  then have "Logger WARNING m \<notin> set (fst (lifecycle J p rt))"
    by (cases "init_outcome rt")
       (auto simp: lifecycle_def startup_def startup_handler_def log_error_during_def flow_defs)
  with assms show ?thesis by simp
next
  case init: True
  show ?thesis
  proof (cases "setup_outcome rt = Returns")
    case True
    with assms init serve_no_warning[of m J p rt] show ?thesis
      by (auto simp: lifecycle_started)
  next
    case False
    with assms init show ?thesis
      by (auto simp: lifecycle_setup_fails split: outcome.splits if_splits)
  qed
qed

lemma run_warning:
  assumes "Logger WARNING m \<in> set (fst (run J p rt))"
  shows "init_outcome rt = Returns \<and> env (self_args p) \<noteq> []
       \<and> runtime_backend (self_args p) = THREAD"
proof -
  have "Logger WARNING m \<in> set (fst (lifecycle J p rt))"
    using assms by (auto simp: run_eq unset_envs_eq split: if_splits)
  then have "init_outcome rt = Returns" "Logger WARNING m \<in> set (fst (set_envs p))"
    using lifecycle_warning by blast+
  then show ?thesis by (auto simp: set_envs_eq split: if_splits)
qed

lemma run_before_call:
  assumes "fst (run J p rt) = pre @ Call c # post"
  shows "set pre \<subseteq> set (fst (lifecycle J p rt))"
proof -
  let ?L = "fst (lifecycle J p rt)"
  obtain F' where tr: "fst (run J p rt) = ?L @ F'"
    and F': "F' = [] \<or> F' = [FlagSet IsShutdown, FlagClear IsReady] @ fst (unset_envs p)"
    by (cases "snd (lifecycle J p rt) = Hangs") (simp_all add: run_eq)
  have cF: "Call c \<notin> set F'" using F' by (auto simp: unset_envs_eq split: if_splits)
  have eq: "pre @ Call c # post = [] @ ?L @ F'" using assms tr by simp
  have nil: "Call c \<notin> set []" by simp
  from occurs_in_middle[OF nil cF eq] obtain m1 m2
    where m: "pre = [] @ m1" "?L = m1 @ Call c # m2" by blast
  then have "?L = pre @ Call c # m2" by simp
  then show ?thesis by (metis set_append Un_upper1)
qed

lemma run_env_untouched_at_call:
  assumes ov: "env (self_args p) = []" and eq: "fst (run J p rt) = pre @ Call c # post"
  shows "process_env (exec pre s) = process_env s"
proof -
  have "\<forall>x\<in>set pre. (\<exists>c. x = Call c) \<or> is_log x \<or> (\<exists>f. x = FlagSet f) \<or> (\<exists>f. x = FlagClear f)"
  proof
    fix x assume x: "x \<in> set pre"
    then have l: "x \<in> set (fst (lifecycle J p rt))" using run_before_call[OF eq] by blast
    have "x \<in> set (fst (run J p rt))" using x eq by simp
    then have "x \<noteq> EnvironUpdate (self_envs p)" using run_no_environ_update[OF ov] by metis
    with lifecycle_events[OF l]
    show "(\<exists>c. x = Call c) \<or> is_log x \<or> (\<exists>f. x = FlagSet f) \<or> (\<exists>f. x = FlagClear f)"
      by blast
  qed
  then show ?thesis by (rule env_exec_unchanged)
qed

lemma init_args_thread:
  "init jina0 ''tcp://0.0.0.0:5000'' ''ipc:///tmp/ctrl'' (args0\<lparr>runtime_backend := THREAD\<rparr>)
     = Some pea_thread"
  by (simp add: init_def get_runtime_cls_def jina0_def args0_def pea_thread_def pea_of_def
      init_envs_def init_name_def)

text \<open>
  Claim C9, amended. For a Pea constructed from a configuration, \<^verbatim>\<open>run\<close> treats the variables
  of \<^verbatim>\<open>_envs\<close> as follows. If \<^verbatim>\<open>args.env\<close> is not empty: under the process backend every
  variable of \<^verbatim>\<open>_envs\<close> has its value in the environment whenever \<^verbatim>\<open>setup\<close>,
  \<^verbatim>\<open>run_forever\<close> or \<^verbatim>\<open>teardown\<close> is called, and is absent from it when \<^verbatim>\<open>run\<close> has ended;
  under the thread backend the environment is the initial one at every point of the
  execution, and the warning is logged exactly when the Runtime has been constructed (a
  constructor that raises or does not return leaves \<^verbatim>\<open>_set_envs\<close> unreached). If \<^verbatim>\<open>args.env\<close>
  is empty, then under either backend no variable is applied (the environment is the initial
  one whenever a method of the Runtime or its constructor is called) and no warning is
  logged.
\<close>

theorem run_envs_with_overrides:
  assumes "init J ca ra a = Some p"
  shows "(env a \<noteq> [] \<longrightarrow>
          (runtime_backend a \<noteq> THREAD \<longrightarrow>
             (\<forall>pre post c k v. c \<noteq> Init \<and> fst (run J p rt) = pre @ Call c # post
                   \<and> (k, v) \<in> set (self_envs p)
                 \<longrightarrow> process_env (exec pre s) k = Some v)
           \<and> (snd (run J p rt) \<noteq> Hangs
                 \<longrightarrow> (\<forall>k\<in>fst ` set (self_envs p). process_env (exec (fst (run J p rt)) s) k = None)))
        \<and> (runtime_backend a = THREAD \<longrightarrow>
             (\<forall>pre post. fst (run J p rt) = pre @ post \<longrightarrow> process_env (exec pre s) = process_env s)
           \<and> (Logger WARNING EnvsWithThread \<in> set (fst (run J p rt))
                 \<longleftrightarrow> init_outcome rt = Returns)))
     \<and> (env a = [] \<longrightarrow>
          (\<forall>kvs. EnvironUpdate kvs \<notin> set (fst (run J p rt)))
        \<and> (\<forall>pre post c. fst (run J p rt) = pre @ Call c # post
               \<longrightarrow> process_env (exec pre s) = process_env s)
        \<and> (\<forall>m. Logger WARNING m \<notin> set (fst (run J p rt))))"
proof (cases "env a = []")
  case True
  note i = init_Some[OF assms]
  have ov: "env (self_args p) = []" using True i(2) by simp
  have 1: "\<forall>kvs. EnvironUpdate kvs \<notin> set (fst (run J p rt))"
    by (intro allI) (rule run_no_environ_update[OF ov])
  have 2: "\<forall>pre post c. fst (run J p rt) = pre @ Call c # post
               \<longrightarrow> process_env (exec pre s) = process_env s"
  proof (intro allI impI)
    fix pre post c
    assume "fst (run J p rt) = pre @ Call c # post"
    with ov show "process_env (exec pre s) = process_env s" by (rule run_env_untouched_at_call)
  qed
  have 3: "\<forall>m. Logger WARNING m \<notin> set (fst (run J p rt))"
  proof (intro allI notI)
    fix m
    assume "Logger WARNING m \<in> set (fst (run J p rt))"
    then have "env (self_args p) \<noteq> []" using run_warning by blast
    with ov show False by simp
  qed
  show ?thesis
  proof (rule conjI)
    show "env a \<noteq> [] \<longrightarrow>
          (runtime_backend a \<noteq> THREAD \<longrightarrow>
             (\<forall>pre post c k v. c \<noteq> Init \<and> fst (run J p rt) = pre @ Call c # post
                   \<and> (k, v) \<in> set (self_envs p)
                 \<longrightarrow> process_env (exec pre s) k = Some v)
           \<and> (snd (run J p rt) \<noteq> Hangs
                 \<longrightarrow> (\<forall>k\<in>fst ` set (self_envs p). process_env (exec (fst (run J p rt)) s) k = None)))
        \<and> (runtime_backend a = THREAD \<longrightarrow>
             (\<forall>pre post. fst (run J p rt) = pre @ post \<longrightarrow> process_env (exec pre s) = process_env s)
           \<and> (Logger WARNING EnvsWithThread \<in> set (fst (run J p rt))
                 \<longleftrightarrow> init_outcome rt = Returns))"
    proof (rule impI)
      assume "env a \<noteq> []"
      with True have False by (rule notE[rotated])
      then show "(runtime_backend a \<noteq> THREAD \<longrightarrow>
             (\<forall>pre post c k v. c \<noteq> Init \<and> fst (run J p rt) = pre @ Call c # post
                   \<and> (k, v) \<in> set (self_envs p)
                 \<longrightarrow> process_env (exec pre s) k = Some v)
           \<and> (snd (run J p rt) \<noteq> Hangs
                 \<longrightarrow> (\<forall>k\<in>fst ` set (self_envs p). process_env (exec (fst (run J p rt)) s) k = None)))
        \<and> (runtime_backend a = THREAD \<longrightarrow>
             (\<forall>pre post. fst (run J p rt) = pre @ post \<longrightarrow> process_env (exec pre s) = process_env s)
           \<and> (Logger WARNING EnvsWithThread \<in> set (fst (run J p rt))
                 \<longleftrightarrow> init_outcome rt = Returns))" by (rule FalseE)
    qed
  next
    show "env a = [] \<longrightarrow>
          (\<forall>kvs. EnvironUpdate kvs \<notin> set (fst (run J p rt)))
        \<and> (\<forall>pre post c. fst (run J p rt) = pre @ Call c # post
               \<longrightarrow> process_env (exec pre s) = process_env s)
        \<and> (\<forall>m. Logger WARNING m \<notin> set (fst (run J p rt)))"
      by (rule impI, rule conjI[OF 1 conjI[OF 2 3]])
  qed
next
  case False
  note i = init_Some[OF assms]
  have ov: "env (self_args p) \<noteq> []" using False i(2) by simp
  have di: "distinct (map fst (self_envs p))" using distinct_init_envs[of a] i(1) by simp
  have be: "runtime_backend (self_args p) = runtime_backend a" by (rule i(3))
  have P: "runtime_backend a \<noteq> THREAD \<longrightarrow>
             (\<forall>pre post c k v. c \<noteq> Init \<and> fst (run J p rt) = pre @ Call c # post
                   \<and> (k, v) \<in> set (self_envs p)
                 \<longrightarrow> process_env (exec pre s) k = Some v)
           \<and> (snd (run J p rt) \<noteq> Hangs
                 \<longrightarrow> (\<forall>k\<in>fst ` set (self_envs p). process_env (exec (fst (run J p rt)) s) k = None))"
  proof (intro conjI impI allI ballI)
    fix pre post c k v
    assume "runtime_backend a \<noteq> THREAD"
      and h: "c \<noteq> Init \<and> fst (run J p rt) = pre @ Call c # post \<and> (k, v) \<in> set (self_envs p)"
    then have t: "runtime_backend (self_args p) \<noteq> THREAD" using be by simp
    from h have h1: "c \<noteq> Init" and h2: "fst (run J p rt) = pre @ Call c # post"
      and h3: "(k, v) \<in> set (self_envs p)" by simp_all
    show "process_env (exec pre s) k = Some v"
      by (rule run_env_at_call[OF ov t di h1 h2 h3])
  next
    fix k
    assume "runtime_backend a \<noteq> THREAD" and e: "snd (run J p rt) \<noteq> Hangs"
      and k: "k \<in> fst ` set (self_envs p)"
    then have t: "runtime_backend (self_args p) \<noteq> THREAD" using be by simp
    show "process_env (exec (fst (run J p rt)) s) k = None"
      by (rule run_env_at_end[OF t e k])
  qed
  have T: "runtime_backend a = THREAD \<longrightarrow>
             (\<forall>pre post. fst (run J p rt) = pre @ post \<longrightarrow> process_env (exec pre s) = process_env s)
           \<and> (Logger WARNING EnvsWithThread \<in> set (fst (run J p rt))
                 \<longleftrightarrow> init_outcome rt = Returns)"
  proof (intro conjI impI allI iffI)
    fix pre post
    assume "runtime_backend a = THREAD" and eq: "fst (run J p rt) = pre @ post"
    then have t: "runtime_backend (self_args p) = THREAD" using be by simp
    show "process_env (exec pre s) = process_env s"
      by (rule run_env_thread[OF t eq])
  next
    assume "runtime_backend a = THREAD" and r: "init_outcome rt = Returns"
    then have t: "runtime_backend (self_args p) = THREAD" using be by simp
    show "Logger WARNING EnvsWithThread \<in> set (fst (run J p rt))"
      by (rule run_thread_warning[OF ov t r])
  next
    assume "Logger WARNING EnvsWithThread \<in> set (fst (run J p rt))"
    then show "init_outcome rt = Returns" using run_warning by blast
  qed
  show ?thesis
  proof (rule conjI)
    show "env a \<noteq> [] \<longrightarrow>
          (runtime_backend a \<noteq> THREAD \<longrightarrow>
             (\<forall>pre post c k v. c \<noteq> Init \<and> fst (run J p rt) = pre @ Call c # post
                   \<and> (k, v) \<in> set (self_envs p)
                 \<longrightarrow> process_env (exec pre s) k = Some v)
           \<and> (snd (run J p rt) \<noteq> Hangs
                 \<longrightarrow> (\<forall>k\<in>fst ` set (self_envs p). process_env (exec (fst (run J p rt)) s) k = None)))
        \<and> (runtime_backend a = THREAD \<longrightarrow>
             (\<forall>pre post. fst (run J p rt) = pre @ post \<longrightarrow> process_env (exec pre s) = process_env s)
           \<and> (Logger WARNING EnvsWithThread \<in> set (fst (run J p rt))
                 \<longleftrightarrow> init_outcome rt = Returns))"
      by (rule impI, rule conjI[OF P T])
  next
    show "env a = [] \<longrightarrow>
          (\<forall>kvs. EnvironUpdate kvs \<notin> set (fst (run J p rt)))
        \<and> (\<forall>pre post c. fst (run J p rt) = pre @ Call c # post
               \<longrightarrow> process_env (exec pre s) = process_env s)
        \<and> (\<forall>m. Logger WARNING m \<notin> set (fst (run J p rt)))"
    proof (rule impI)
      assume "env a = []"
      with False have False by (rule notE)
      then show "(\<forall>kvs. EnvironUpdate kvs \<notin> set (fst (run J p rt)))
        \<and> (\<forall>pre post c. fst (run J p rt) = pre @ Call c # post
               \<longrightarrow> process_env (exec pre s) = process_env s)
        \<and> (\<forall>m. Logger WARNING m \<notin> set (fst (run J p rt)))" by (rule FalseE)
    qed
  qed
qed

theorem run_envs_with_overrides_witness:
  "process_env (exec [Call Init,
       EnvironUpdate [(''JINA_POD_NAME'', ''pea0''), (''JINA_LOG_ID'', ''id0''), (''DEBUG'', ''1'')],
       Logger INFO Starting] state0) ''DEBUG'' = Some ''1''
   \<and> process_env (exec (fst (run jina0 pea_env runtime_ok)) state0) ''DEBUG'' = None
   \<and> process_env (exec [Call Init, Logger WARNING EnvsWithThread, Logger INFO Starting] state0)
       = process_env state0
   \<and> Logger WARNING EnvsWithThread \<in> set (fst (run jina0 pea_thread_env runtime_ok))
   \<and> process_env (exec [Call Init, Logger INFO Starting] state_inherited)
       = process_env state_inherited
   \<and> EnvironUpdate [(''JINA_POD_NAME'', ''pea0''), (''JINA_LOG_ID'', ''id0'')]
       \<notin> set (fst (run jina0 pea0 runtime_ok))
   \<and> Logger WARNING EnvsWithThread \<notin> set (fst (run jina0 pea0 runtime_ok))
   \<and> EnvironUpdate [(''JINA_POD_NAME'', ''pea0''), (''JINA_LOG_ID'', ''id0'')]
       \<notin> set (fst (run jina0 pea_thread runtime_ok))
   \<and> Logger WARNING EnvsWithThread \<notin> set (fst (run jina0 pea_thread runtime_ok))"
proof -
  let ?E = "[(''JINA_POD_NAME'', ''pea0''), (''JINA_LOG_ID'', ''id0''), (''DEBUG'', ''1'')]"
  let ?pre = "[Call Init, EnvironUpdate ?E, Logger INFO Starting]"
  let ?post = "[FlagSet IsReady, Call RunForever, Logger INFO IsEnd, Call Teardown,
                FlagSet IsShutdown, FlagClear IsReady,
                Unsetenv ''JINA_POD_NAME'', Unsetenv ''JINA_LOG_ID'', Unsetenv ''DEBUG'']"
  let ?tpre = "[Call Init, Logger WARNING EnvsWithThread, Logger INFO Starting]"
  let ?tpost = "[Call Setup, FlagSet IsReady, Call RunForever, Logger INFO IsEnd, Call Teardown,
                 FlagSet IsShutdown, FlagClear IsReady]"
  let ?epre = "[Call Init, Logger INFO Starting]"
  let ?epost = "[FlagSet IsReady, Call RunForever, Logger INFO IsEnd, Call Teardown,
                 FlagSet IsShutdown, FlagClear IsReady,
                 Unsetenv ''JINA_POD_NAME'', Unsetenv ''JINA_LOG_ID'']"
  have ne: "env (args0\<lparr>env := [(''DEBUG'', ''1'')]\<rparr>) \<noteq> []"
    and net: "env (args0\<lparr>runtime_backend := THREAD, env := [(''DEBUG'', ''1'')]\<rparr>) \<noteq> []"
    and bp: "runtime_backend (args0\<lparr>env := [(''DEBUG'', ''1'')]\<rparr>) \<noteq> THREAD"
    and bt: "runtime_backend (args0\<lparr>runtime_backend := THREAD, env := [(''DEBUG'', ''1'')]\<rparr>) = THREAD"
    and e0: "env args0 = []"
    and et: "env (args0\<lparr>runtime_backend := THREAD\<rparr>) = []"
    by (simp_all add: args0_def)
  have tr: "fst (run jina0 pea_env runtime_ok) = ?pre @ Call Setup # ?post"
    and ends: "snd (run jina0 pea_env runtime_ok) \<noteq> Hangs"
    by (simp_all add: run_env_trace)
  have kv: "(''DEBUG'', ''1'') \<in> set (self_envs pea_env)"
    and k: "''DEBUG'' \<in> fst ` set (self_envs pea_env)"
    by (simp_all add: pea_env_def pea_of_def args0_def init_envs_def init_name_def dict_update_def)
  have ttr: "fst (run jina0 pea_thread_env runtime_ok) = ?tpre @ ?tpost"
    by (simp add: run_thread_env_trace)
  have etr: "fst (run jina0 pea0 runtime_ok) = ?epre @ Call Setup # ?epost"
    by (simp add: run_ok_trace)
  have ok: "init_outcome runtime_ok = Returns"
    by (simp add: runtime_ok_def)
  have s: "Setup \<noteq> Init" by simp
  note p = run_envs_with_overrides [OF init_args_env, of runtime_ok state0]
  note t = run_envs_with_overrides [OF init_args_thread_env, of runtime_ok state0]
  note n = run_envs_with_overrides [OF init_args0, of runtime_ok state_inherited]
  note m = run_envs_with_overrides [OF init_args_thread, of runtime_ok state_inherited]
  have 1: "process_env (exec ?pre state0) ''DEBUG'' = Some ''1''"
    using p ne bp tr kv s by blast
  have 2: "process_env (exec (fst (run jina0 pea_env runtime_ok)) state0) ''DEBUG'' = None"
    using p ne bp ends k by blast
  have 3: "process_env (exec ?tpre state0) = process_env state0"
    using t net bt ttr by blast
  have 4: "Logger WARNING EnvsWithThread \<in> set (fst (run jina0 pea_thread_env runtime_ok))"
    using t net bt ok by blast
  have 5: "process_env (exec ?epre state_inherited) = process_env state_inherited"
    using n e0 etr by blast
  have 6: "EnvironUpdate [(''JINA_POD_NAME'', ''pea0''), (''JINA_LOG_ID'', ''id0'')]
       \<notin> set (fst (run jina0 pea0 runtime_ok))"
    using n e0 by blast
  have 7: "Logger WARNING EnvsWithThread \<notin> set (fst (run jina0 pea0 runtime_ok))"
    using n e0 by blast
  have 8: "EnvironUpdate [(''JINA_POD_NAME'', ''pea0''), (''JINA_LOG_ID'', ''id0'')]
       \<notin> set (fst (run jina0 pea_thread runtime_ok))"
    using m et by blast
  have 9: "Logger WARNING EnvsWithThread \<notin> set (fst (run jina0 pea_thread runtime_ok))"
    using m et by blast
  from 1 2 3 4 5 6 7 8 9 show ?thesis by blast
qed

end
